theory Spec2Isabelle
  imports Main
begin

section \<open>Data model (frontend/src/types.ts)\<close>

text \<open>
  The wire types shared by the three clients.  JavaScript numbers that the protocol uses as
  counters and identifiers are integers here; a field of a type that several interfaces
  share (\<open>nickname\<close>, \<open>avatar\<close>, \<open>rank\<close>) carries a prefix naming its interface.
\<close>

record Prompt =
  prompt_id :: int
  prompt_text :: string

record PromptPack =
  title :: string
  prompts :: "Prompt list"

record PlayerInfo =
  pi_nickname :: string
  pi_avatar :: string

record Vote =
  voter :: string
  target :: string

record PodiumEntry =
  pe_nickname :: string
  pe_avatar :: string
  vote_count :: int
  rank :: int

record RoundResult =
  rr_prompt :: Prompt
  votes :: "Vote list"
  podium :: "PodiumEntry list"
  majority_winner :: string
  prediction_points :: "(string \<times> int) list"

record LeaderboardEntry =
  le_nickname :: string
  le_avatar :: string
  score :: int
  le_rank :: int
  rank_change :: int

record Superlative =
  sup_title :: string
  winner :: string
  sup_avatar :: string
  detail :: string

section \<open>JavaScript helpers\<close>

text \<open>
  \<open>String.prototype.trim\<close> on the ASCII white space characters (tab, line feed, vertical
  tab, form feed, carriage return, space).  The source only ever tests whether the trimmed
  text is empty, or stores it as a prompt text.
\<close>

definition is_space :: "char \<Rightarrow> bool" where
  "is_space c \<longleftrightarrow> c \<in> {CHR 0x09, CHR 0x0A, CHR 0x0B, CHR 0x0C, CHR 0x0D, CHR 0x20}"

definition trim :: "string \<Rightarrow> string" where
  "trim s = rev (dropWhile is_space (rev (dropWhile is_space s)))"

text \<open>\<open>xs[i]\<close>: an index past the end reads \<open>undefined\<close>, it does not raise.\<close>

definition js_index :: "'a list \<Rightarrow> nat \<Rightarrow> 'a option" where
  "js_index xs i = (if i < length xs then Some (xs ! i) else None)"

text \<open>\<open>v || d\<close> on an optional number: \<open>undefined\<close> and \<open>0\<close> are both falsy.\<close>

definition num_or :: "int option \<Rightarrow> int \<Rightarrow> int" where
  "num_or v d = (case v of None \<Rightarrow> d | Some n \<Rightarrow> if n = 0 then d else n)"

text \<open>\<open>v || d\<close> on an optional string (the empty string is falsy) and on an optional array
  or object (always truthy when present).\<close>

definition str_or :: "string option \<Rightarrow> string \<Rightarrow> string" where
  "str_or v d = (case v of None \<Rightarrow> d | Some s \<Rightarrow> if s = [] then d else s)"

definition obj_or :: "'a option \<Rightarrow> 'a \<Rightarrow> 'a" where
  "obj_or v d = (case v of None \<Rightarrow> d | Some x \<Rightarrow> x)"

text \<open>\<open>record[key] || 0\<close> on a \<open>Record<string, number>\<close>.\<close>

definition points_of :: "(string \<times> int) list \<Rightarrow> string \<Rightarrow> int" where
  "points_of pp name = num_or (map_of pp name) 0"

section \<open>The review screen (components/organizer/ReviewScreen.tsx)\<close>

text \<open>
  The component's local state.  Each edit operation either returns without calling
  \<open>onUpdatePack\<close> (\<open>None\<close>) or calls it with the updated pack (\<open>Some updated\<close>).
\<close>

record ReviewScreen =
  editingId :: "int option"
  editText :: string
  addingNew :: bool
  newPromptText :: string

definition startEdit :: "ReviewScreen \<Rightarrow> Prompt \<Rightarrow> ReviewScreen" where
  "startEdit st p = st\<lparr>editingId := Some (prompt_id p), editText := prompt_text p\<rparr>"

definition cancelEdit :: "ReviewScreen \<Rightarrow> ReviewScreen" where
  "cancelEdit st = st\<lparr>editingId := None, editText := []\<rparr>"






section \<open>The reveal screen's podium and vote breakdown\<close>

text \<open>
  The three pages build the podium row with the same code: the first three entries of the
  list, shown second, first, third; a missing entry is \<open>null\<close>.
\<close>

definition ordered :: "PodiumEntry list \<Rightarrow> PodiumEntry option list" where
  "ordered pod =
     (let top3 = take 3 pod in [js_index top3 1, js_index top3 0, js_index top3 2])"

text \<open>\<open>heightMap[rank] || 60\<close> on the phones (organizer, player) and on the shared screen.\<close>

definition heightMap_phone :: "int \<Rightarrow> int" where
  "heightMap_phone r = (if r = 1 then 140 else if r = 2 then 110 else if r = 3 then 80 else 60)"

definition heightMap_tv :: "int \<Rightarrow> int" where
  "heightMap_tv r = (if r = 1 then 160 else if r = 2 then 120 else if r = 3 then 90 else 60)"

text \<open>
  One rendered slot: the empty \<open>div\<close> keyed by its display index, or the entry's column
  with its bar height and whether the crown is drawn (\<open>rank === 1\<close>).
\<close>

datatype podium_slot =
    EmptySlot nat
  | EntrySlot PodiumEntry int bool

definition render_slot :: "(int \<Rightarrow> int) \<Rightarrow> nat \<times> PodiumEntry option \<Rightarrow> podium_slot" where
  "render_slot heightMap x =
     (case snd x of
        None \<Rightarrow> EmptySlot (fst x)
      | Some entry \<Rightarrow> EntrySlot entry (heightMap (rank entry)) (rank entry = 1))"

definition render_podium :: "(int \<Rightarrow> int) \<Rightarrow> PodiumEntry list \<Rightarrow> podium_slot list" where
  "render_podium heightMap pod = map (render_slot heightMap) (enumerate 0 (ordered pod))"

definition organizer_podium :: "RoundResult \<Rightarrow> podium_slot list" where
  "organizer_podium rr = render_podium heightMap_phone (podium rr)"

definition player_podium :: "RoundResult \<Rightarrow> podium_slot list" where
  "player_podium rr = render_podium heightMap_phone (podium rr)"

definition spectator_podium :: "RoundResult \<Rightarrow> podium_slot list" where
  "spectator_podium rr = render_podium heightMap_tv (podium rr)"

text \<open>
  The vote breakdown card of each page: \<open>None\<close> when the card is not rendered, otherwise
  its rows (voter label, target) in list order.  The organizer page tests its own
  \<open>showVotes\<close> setting; the player and spectator pages test only the list.  The player
  page writes \<open>You\<close> for its own nickname.
\<close>

definition organizer_breakdown :: "bool \<Rightarrow> RoundResult \<Rightarrow> (string \<times> string) list option" where
  "organizer_breakdown showVotes rr =
     (if showVotes \<and> length (votes rr) > 0
      then Some (map (\<lambda>v. (voter v, target v)) (votes rr)) else None)"

definition player_breakdown :: "string \<Rightarrow> RoundResult \<Rightarrow> (string \<times> string) list option" where
  "player_breakdown nick rr =
     (if length (votes rr) > 0
      then Some (map (\<lambda>v. (if voter v = nick then ''You'' else voter v, target v)) (votes rr))
      else None)"

definition spectator_breakdown :: "RoundResult \<Rightarrow> (string \<times> string) list option" where
  "spectator_breakdown rr =
     (if length (votes rr) > 0
      then Some (map (\<lambda>v. (voter v, target v)) (votes rr)) else None)"

section \<open>The connection protocol as the clients read it\<close>

text \<open>
  Messages are JSON objects dispatched on their \<open>type\<close>.  A field that a handler guards
  (\<open>msg.players\<close>, \<open>msg.x || d\<close>, \<open>msg.x ?? y\<close>, \<open>msg.prompt?.text\<close>) is optional; a field
  that a handler reads as it stands is taken to be present.
\<close>

record question_msg =
  q_prompt_text :: "string option"
  q_question_number :: int
  q_total_questions :: int
  q_timer_seconds :: int
  q_players :: "PlayerInfo list option"

record round_result_msg =
  r_prompt :: Prompt
  r_votes :: "Vote list option"
  r_podium :: "PodiumEntry list option"
  r_majority_winner :: "string option"
  r_prediction_points :: "(string \<times> int) list option"

record podium_msg =
  p_leaderboard :: "LeaderboardEntry list option"
  p_superlatives :: "Superlative list option"
  p_round_history :: "RoundResult list option"

text \<open>The full snapshot carried by \<open>RECONNECTED\<close> and \<open>ORGANIZER_RECONNECTED\<close>.\<close>

record snapshot =
  s_state :: string
  s_room_code :: string
  s_player_count :: int
  s_players :: "PlayerInfo list option"
  s_question_number :: "int option"
  s_total_questions :: "int option"
  s_timer_seconds :: "int option"
  s_time_remaining :: "int option"
  s_voted_count :: "int option"
  s_prompt_text :: "string option"
  s_leaderboard :: "LeaderboardEntry list option"
  s_superlatives :: "Superlative list option"

datatype server_msg =
    ERROR string
  | KICKED
  | JOINED_ROOM
  | RECONNECTED snapshot
  | ORGANIZER_RECONNECTED snapshot
  | PLAYER_JOINED int "PlayerInfo list option"
  | PLAYER_LEFT int "PlayerInfo list option"
  | GAME_STARTING
  | QUESTION question_msg
  | TIMER int
  | VOTE_COUNT int
  | ROUND_RESULT round_result_msg
  | PODIUM podium_msg
  | ROOM_RESET int "PlayerInfo list option"
  | OTHER string

datatype client_msg =
    JOIN string string
  | VOTE string
  | START_GAME
  | NEXT_QUESTION
  | SKIP_QUESTION
  | END_GAME
  | RESET_ROOM PromptPack int bool

text \<open>
  What a handler does to the world outside the component's state: a call of \<open>send\<close> on a
  socket, a new socket, a timer, a sound, an alert, an HTTP request.
\<close>

datatype effect =
    Send client_msg
  | NewWebSocket string
  | CloseWebSocket
  | SetTimeout_joinRoom nat
  | SetTimeout_connectWs nat
  | Play string
  | Vibrate nat
  | Alert string
  | ConsoleError string
  | Fetch_room_create string int bool
  | Fetch_put_pack string PromptPack

text \<open>The \<open>RoundResult\<close> that every page builds from a \<open>ROUND_RESULT\<close> message.\<close>

definition result_of_msg :: "round_result_msg \<Rightarrow> RoundResult" where
  "result_of_msg m =
     \<lparr>rr_prompt = r_prompt m,
      votes = obj_or (r_votes m) [],
      podium = obj_or (r_podium m) [],
      majority_winner = str_or (r_majority_winner m) [],
      prediction_points = obj_or (r_prediction_points m) []\<rparr>"

section \<open>The player page (pages/PlayerPage.tsx, in the sources as unnamed/part_002)\<close>

datatype PlayerState =
  PS_JOIN | PS_LOBBY | PS_QUESTION | PS_VOTED | PS_REVEAL | PS_PODIUM | PS_RECONNECTING

text \<open>
  The component's state, its refs (\<open>wsRef\<close> holds a socket or \<open>null\<close>; \<open>kickedRef\<close>) and
  the \<open>whosmost_session\<close> entry of the session storage (room code, nickname, avatar).
\<close>

record PlayerPage =
  state :: PlayerState
  roomCode :: string
  nickname :: string
  avatar :: string
  error :: string
  lobbyPlayers :: "PlayerInfo list"
  currentPromptText :: string
  questionNumber :: int
  totalQuestions :: int
  timerSeconds :: int
  timeRemaining :: "int option"
  players :: "PlayerInfo list"
  selectedTarget :: "string option"
  hasVoted :: bool
  roundResult :: "RoundResult option"
  myPredictionPoints :: int
  leaderboard :: "LeaderboardEntry list"
  superlatives :: "Superlative list"
  wsRef :: bool
  kickedRef :: bool
  session :: "(string \<times> string \<times> string) option"

text \<open>\<open>joinRoom\<close>: open a socket for the room; the handlers below are installed on it.\<close>

definition joinRoom :: "PlayerPage \<Rightarrow> PlayerPage \<times> effect list" where
  "joinRoom s =
     (if trim (roomCode s) = [] \<or> trim (nickname s) = [] then (s, [])
      else (s\<lparr>error := [], kickedRef := False, wsRef := True\<rparr>, [NewWebSocket (roomCode s)]))"

definition ws_onopen :: "PlayerPage \<Rightarrow> PlayerPage \<times> effect list" where
  "ws_onopen s = (s, [Send (JOIN (nickname s) (avatar s))])"

definition ws_onerror :: "PlayerPage \<Rightarrow> PlayerPage \<times> effect list" where
  "ws_onerror s = (s\<lparr>error := ''Connection failed''\<rparr>, [])"

text \<open>\<open>if (msg.players) { setLobbyPlayers(msg.players); setPlayers(msg.players); }\<close>\<close>

definition set_rosters :: "PlayerInfo list option \<Rightarrow> PlayerPage \<Rightarrow> PlayerPage" where
  "set_rosters ps s = (case ps of None \<Rightarrow> s | Some l \<Rightarrow> s\<lparr>lobbyPlayers := l, players := l\<rparr>)"

definition set_players :: "PlayerInfo list option \<Rightarrow> PlayerPage \<Rightarrow> PlayerPage" where
  "set_players ps s = (case ps of None \<Rightarrow> s | Some l \<Rightarrow> s\<lparr>players := l\<rparr>)"

fun ws_onmessage :: "PlayerPage \<Rightarrow> server_msg \<Rightarrow> PlayerPage \<times> effect list" where
  "ws_onmessage s (ERROR m) =
     ((if m = ''Room not found'' then s\<lparr>session := None, state := PS_JOIN\<rparr> else s)
        \<lparr>error := m\<rparr>, [])"
| "ws_onmessage s KICKED =
     (s\<lparr>kickedRef := True, wsRef := False, state := PS_JOIN,
        error := ''You joined from another device''\<rparr>, [])"
| "ws_onmessage s JOINED_ROOM =
     (s\<lparr>session := Some (roomCode s, nickname s, avatar s), state := PS_LOBBY\<rparr>, [])"
| "ws_onmessage s (RECONNECTED m) =
     (let s1 = set_players (s_players m)
                 (s\<lparr>session := Some (roomCode s, nickname s, avatar s),
                    questionNumber := num_or (s_question_number m) 0,
                    totalQuestions := num_or (s_total_questions m) 0\<rparr>)
      in if s_state m = ''LOBBY'' then (s1\<lparr>state := PS_LOBBY\<rparr>, [])
         else if s_state m = ''QUESTION'' then
           (s1\<lparr>currentPromptText := str_or (s_prompt_text m) [],
               timerSeconds := num_or (s_timer_seconds m) 60,
               timeRemaining :=
                 (case s_time_remaining m of Some t \<Rightarrow> Some t | None \<Rightarrow> s_timer_seconds m),
               selectedTarget := None,
               hasVoted := False,
               state := PS_QUESTION\<rparr>, [])
         else (s1\<lparr>state := PS_VOTED\<rparr>, []))"
| "ws_onmessage s (PLAYER_JOINED n ps) = (set_rosters ps s, [Play ''playerJoin''])"
| "ws_onmessage s (PLAYER_LEFT n ps) = (set_rosters ps s, [])"
| "ws_onmessage s GAME_STARTING = (s, [])"
| "ws_onmessage s (QUESTION m) =
     ((set_players (q_players m)
         (s\<lparr>currentPromptText := str_or (q_prompt_text m) [],
            questionNumber := q_question_number m,
            totalQuestions := q_total_questions m,
            timerSeconds := q_timer_seconds m,
            timeRemaining := Some (q_timer_seconds m)\<rparr>))
        \<lparr>selectedTarget := None, hasVoted := False, roundResult := None,
         state := PS_QUESTION\<rparr>, [])"
| "ws_onmessage s (TIMER r) =
     (s\<lparr>timeRemaining := Some r\<rparr>, if r \<le> 5 \<and> r > 0 then [Play ''timerTick''] else [])"
| "ws_onmessage s (VOTE_COUNT n) = (s, [])"
| "ws_onmessage s (ROUND_RESULT m) =
     (let result = result_of_msg m in
      (s\<lparr>roundResult := Some result,
         myPredictionPoints := points_of (prediction_points result) (nickname s),
         state := PS_REVEAL\<rparr>,
       Play ''reveal'' #
         (if (case map_of (prediction_points result) (nickname s) of
                None \<Rightarrow> False | Some p \<Rightarrow> p > 0)
          then [Vibrate 100] else [])))"
| "ws_onmessage s (PODIUM m) =
     (s\<lparr>leaderboard := obj_or (p_leaderboard m) [],
        superlatives := obj_or (p_superlatives m) [],
        state := PS_PODIUM\<rparr>, [Play ''fanfare''])"
| "ws_onmessage s (ROOM_RESET n ps) =
     ((set_rosters ps
         (s\<lparr>questionNumber := 0, totalQuestions := 0, selectedTarget := None,
            hasVoted := False, roundResult := None, leaderboard := [],
            superlatives := [], myPredictionPoints := 0\<rparr>))
        \<lparr>state := PS_LOBBY\<rparr>, [Play ''playerJoin''])"
| "ws_onmessage s (ORGANIZER_RECONNECTED m) = (s, [])"
| "ws_onmessage s (OTHER t) = (s, [])"

text \<open>
  \<open>ws.onclose\<close>: after a \<open>KICKED\<close> notice only the flag is reset; otherwise every state but
  \<open>JOIN\<close> and \<open>PODIUM\<close> schedules a rejoin in two seconds.
\<close>

definition ws_onclose :: "PlayerPage \<Rightarrow> PlayerPage \<times> effect list" where
  "ws_onclose s =
     (if kickedRef s then (s\<lparr>kickedRef := False\<rparr>, [])
      else if state s \<noteq> PS_JOIN \<and> state s \<noteq> PS_PODIUM
        then (s\<lparr>state := PS_RECONNECTING\<rparr>, [SetTimeout_joinRoom 2000])
      else if state s = PS_JOIN then (s\<lparr>error := ''Room not found''\<rparr>, [])
      else (s, []))"

definition submitVote :: "PlayerPage \<Rightarrow> string \<Rightarrow> PlayerPage \<times> effect list" where
  "submitVote s t =
     (if hasVoted s then (s, [])
      else
        (s\<lparr>selectedTarget := Some t, hasVoted := True, state := PS_VOTED\<rparr>,
         (if wsRef s then [Send (VOTE t)] else []) @ [Play ''voteIn'', Vibrate 50]))"

text \<open>
  Everything that can happen to the page after it is mounted: the socket's events, the
  rejoin timer firing, the Join button and a tap on a vote card.
\<close>

datatype player_event =
    Message server_msg
  | Open
  | Close
  | SocketError
  | JoinClick
  | RejoinTimer
  | VoteClick string

fun player_step :: "PlayerPage \<Rightarrow> player_event \<Rightarrow> PlayerPage \<times> effect list" where
  "player_step s (Message m) = ws_onmessage s m"
| "player_step s Open = ws_onopen s"
| "player_step s Close = ws_onclose s"
| "player_step s SocketError = ws_onerror s"
| "player_step s JoinClick = joinRoom s"
| "player_step s RejoinTimer = joinRoom s"
| "player_step s (VoteClick t) = submitVote s t"

text \<open>Running a sequence of events, collecting the effects in order.\<close>

fun player_run :: "PlayerPage \<Rightarrow> player_event list \<Rightarrow> PlayerPage \<times> effect list" where
  "player_run s [] = (s, [])"
| "player_run s (e # es) =
     (let (s1, out1) = player_step s e; (s2, out2) = player_run s1 es in (s2, out1 @ out2))"

text \<open>
  The initial state: the room code comes from the \<open>room\<close> query parameter or the saved
  session, nickname and avatar from the saved session (the avatar is otherwise drawn at
  random, here the argument \<open>emoji\<close>).  On mount a saved session schedules \<open>joinRoom\<close>.
\<close>

definition player_init ::
  "string option \<Rightarrow> (string \<times> string \<times> string) option \<Rightarrow> string \<Rightarrow> PlayerPage" where
  "player_init room saved emoji =
     \<lparr>state = PS_JOIN,
      roomCode = str_or room (str_or (map_option fst saved) []),
      nickname = str_or (map_option (fst \<circ> snd) saved) [],
      avatar = str_or (map_option (snd \<circ> snd) saved) emoji,
      error = [],
      lobbyPlayers = [],
      currentPromptText = [],
      questionNumber = 0,
      totalQuestions = 0,
      timerSeconds = 30,
      timeRemaining = Some 60,
      players = [],
      selectedTarget = None,
      hasVoted = False,
      roundResult = None,
      myPredictionPoints = 0,
      leaderboard = [],
      superlatives = [],
      wsRef = False,
      kickedRef = False,
      session = saved\<rparr>"

definition player_mount :: "PlayerPage \<Rightarrow> effect list" where
  "player_mount s = (if session s \<noteq> None \<and> \<not> wsRef s then [SetTimeout_joinRoom 100] else [])"

text \<open>What the reveal screen of the player page shows: it is rendered in state \<open>REVEAL\<close>
  with a round result.\<close>

definition player_reveal_podium :: "PlayerPage \<Rightarrow> podium_slot list option" where
  "player_reveal_podium s =
     (if state s = PS_REVEAL then map_option player_podium (roundResult s) else None)"

definition player_reveal_breakdown :: "PlayerPage \<Rightarrow> (string \<times> string) list option" where
  "player_reveal_breakdown s =
     (if state s = PS_REVEAL
      then (case roundResult s of None \<Rightarrow> None | Some rr \<Rightarrow> player_breakdown (nickname s) rr)
      else None)"

text \<open>The \<open>VOTE\<close> messages among the effects of a run, and the events whose handler calls
  \<open>setHasVoted(false)\<close>.\<close>

fun is_vote_send :: "effect \<Rightarrow> bool" where
  "is_vote_send (Send (VOTE t)) = True"
| "is_vote_send e = False"

definition vote_sends :: "effect list \<Rightarrow> nat" where
  "vote_sends out = length (filter is_vote_send out)"


section \<open>The organizer's lobby screen (components/organizer/LobbyScreen.tsx, in the sources as unnamed/part_003)\<close>

definition minPlayers :: int where
  "minPlayers = 3"

definition canStart :: "int \<Rightarrow> bool" where
  "canStart playerCount \<longleftrightarrow> playerCount \<ge> minPlayers"

text \<open>The Start button carries \<open>disabled={!canStart}\<close>; a disabled button fires no click.\<close>

definition start_disabled :: "int \<Rightarrow> bool" where
  "start_disabled playerCount \<longleftrightarrow> \<not> canStart playerCount"

section \<open>The organizer page (pages/OrganizerPage.tsx, in the sources as unnamed/part_001)\<close>

datatype OrganizerState =
  OS_PROMPT | OS_LOADING | OS_REVIEW | OS_ROOM | OS_QUESTION | OS_REVEAL | OS_PODIUM

datatype readyState = CONNECTING | OPEN | CLOSING | CLOSED

text \<open>
  The component's state and refs, each field under the source's name with the prefix
  \<open>o_\<close>.  \<open>o_wsRef\<close> is \<open>null\<close> or a socket with its ready state; \<open>o_autoTimerRef\<close> and
  \<open>o_reconnectTimerRef\<close> say whether the ref holds a timer handle.  The inputs of the
  prompt generator (vibe, theme, provider) are left out: no handler below reads them.
\<close>

record OrganizerPage =
  o_state :: OrganizerState
  o_pack :: "PromptPack option"
  o_packId :: string
  o_timerSeconds :: int
  o_showVotes :: bool
  o_roomCode :: string
  o_playerCount :: int
  o_players :: "PlayerInfo list"
  o_currentPromptText :: string
  o_questionNumber :: int
  o_totalQuestions :: int
  o_timeRemaining :: "int option"
  o_votedCount :: int
  o_roundResult :: "RoundResult option"
  o_leaderboard :: "LeaderboardEntry list"
  o_superlatives :: "Superlative list"
  o_roundHistory :: "RoundResult list"
  o_selectedTarget :: "string option"
  o_hasVoted :: bool
  o_autoAdvance :: bool
  o_autoCountdown :: int
  o_autoTimerRef :: bool
  o_wsRef :: "readyState option"
  o_stateRef :: OrganizerState
  o_reconnectTimerRef :: bool
  o_roomCodeRef :: string
  o_organizerTokenRef :: string

text \<open>\<open>wsRef.current?.send(...)\<close>: a call of \<open>send\<close> exactly when the ref holds a socket.\<close>

definition o_send :: "OrganizerPage \<Rightarrow> client_msg \<Rightarrow> effect list" where
  "o_send s m = (case o_wsRef s of None \<Rightarrow> [] | Some r \<Rightarrow> [Send m])"

fun handleWsMessage :: "OrganizerPage \<Rightarrow> server_msg \<Rightarrow> OrganizerPage \<times> effect list" where
  "handleWsMessage s (PLAYER_JOINED n ps) =
     (s\<lparr>o_playerCount := n, o_players := obj_or ps []\<rparr>, [Play ''playerJoin''])"
| "handleWsMessage s (PLAYER_LEFT n ps) =
     (s\<lparr>o_playerCount := n, o_players := obj_or ps []\<rparr>, [])"
| "handleWsMessage s GAME_STARTING = (s, [])"
| "handleWsMessage s (QUESTION m) =
     (s\<lparr>o_currentPromptText := str_or (q_prompt_text m) [],
        o_questionNumber := q_question_number m,
        o_totalQuestions := q_total_questions m,
        o_timeRemaining := Some (q_timer_seconds m),
        o_votedCount := 0,
        o_selectedTarget := None,
        o_hasVoted := False,
        o_roundResult := None,
        o_state := OS_QUESTION\<rparr>, [])"
| "handleWsMessage s (TIMER r) = (s\<lparr>o_timeRemaining := Some r\<rparr>, [])"
| "handleWsMessage s (VOTE_COUNT v) = (s\<lparr>o_votedCount := v\<rparr>, [])"
| "handleWsMessage s (ROUND_RESULT m) =
     (s\<lparr>o_roundResult := Some (result_of_msg m), o_state := OS_REVEAL\<rparr>, [Play ''reveal''])"
| "handleWsMessage s (PODIUM m) =
     (s\<lparr>o_leaderboard := obj_or (p_leaderboard m) [],
        o_superlatives := obj_or (p_superlatives m) [],
        o_roundHistory := obj_or (p_round_history m) [],
        o_state := OS_PODIUM\<rparr>, [Play ''fanfare''])"
| "handleWsMessage s (ROOM_RESET n ps) =
     (s\<lparr>o_playerCount := n, o_players := obj_or ps [], o_state := OS_ROOM\<rparr>, [])"
| "handleWsMessage s (ORGANIZER_RECONNECTED m) =
     (let s1 = s\<lparr>o_roomCode := s_room_code m,
                  o_playerCount := s_player_count m,
                  o_players := obj_or (s_players m) [],
                  o_totalQuestions := num_or (s_total_questions m) 0,
                  o_timerSeconds := num_or (s_timer_seconds m) 60\<rparr>
      in if s_state m = ''LOBBY'' then (s1\<lparr>o_state := OS_ROOM\<rparr>, [])
         else if s_state m = ''QUESTION'' then
           (s1\<lparr>o_questionNumber := num_or (s_question_number m) 0,
               o_timeRemaining :=
                 (case s_time_remaining m of Some t \<Rightarrow> Some t | None \<Rightarrow> s_timer_seconds m),
               o_votedCount := (case s_voted_count m of Some v \<Rightarrow> v | None \<Rightarrow> 0),
               o_currentPromptText := str_or (s_prompt_text m) [],
               o_state := OS_QUESTION\<rparr>, [])
         else if s_state m = ''REVEAL'' then (s1\<lparr>o_state := OS_REVEAL\<rparr>, [])
         else if s_state m = ''PODIUM'' then
           (s1\<lparr>o_leaderboard := obj_or (s_leaderboard m) [],
               o_superlatives := obj_or (s_superlatives m) [],
               o_state := OS_PODIUM\<rparr>, [Play ''fanfare''])
         else (s1, []))"
| "handleWsMessage s (ERROR m) =
     (if m = ''Room not found'' \<or> m = ''Invalid organizer token''
      then (s\<lparr>o_roomCodeRef := [], o_roomCode := [], o_state := OS_PROMPT\<rparr>, [ConsoleError m])
      else (s, [ConsoleError m, Alert (str_or (Some m) ''An error occurred'')]))"
| "handleWsMessage s KICKED = (s, [])"
| "handleWsMessage s JOINED_ROOM = (s, [])"
| "handleWsMessage s (RECONNECTED m) = (s, [])"
| "handleWsMessage s (OTHER t) = (s, [])"

text \<open>
  \<open>connectWs(code)\<close>: a socket still held is detached from its close handler and closed,
  then a new one is opened.
\<close>

definition connectWs :: "OrganizerPage \<Rightarrow> string \<Rightarrow> OrganizerPage \<times> effect list" where
  "connectWs s code =
     (s\<lparr>o_wsRef := Some CONNECTING\<rparr>,
      (case o_wsRef s of None \<Rightarrow> [] | Some r \<Rightarrow> [CloseWebSocket]) @ [NewWebSocket code])"

definition activeStates :: "OrganizerState list" where
  "activeStates = [OS_ROOM, OS_QUESTION, OS_REVEAL, OS_PODIUM]"

definition o_onclose :: "OrganizerPage \<Rightarrow> OrganizerPage \<times> effect list" where
  "o_onclose s =
     (if o_roomCodeRef s \<noteq> [] \<and> o_stateRef s \<in> set activeStates
      then (s\<lparr>o_wsRef := None, o_reconnectTimerRef := True\<rparr>, [SetTimeout_connectWs 2000])
      else (s\<lparr>o_wsRef := None\<rparr>, []))"

definition updatePack :: "OrganizerPage \<Rightarrow> PromptPack \<Rightarrow> OrganizerPage \<times> effect list" where
  "updatePack s updated =
     (s\<lparr>o_pack := Some updated, o_totalQuestions := int (length (prompts updated))\<rparr>,
      [Fetch_put_pack (o_packId s) updated])"

text \<open>
  \<open>createRoom\<close>: with a room code, an open socket and a pack, the Play Again path resets
  the existing room; otherwise a new room is requested, and \<open>room_created\<close> is the
  continuation run on the response.
\<close>

definition createRoom :: "OrganizerPage \<Rightarrow> OrganizerPage \<times> effect list" where
  "createRoom s =
     (case o_pack s of
        Some pack \<Rightarrow>
          if o_roomCode s \<noteq> [] \<and> o_wsRef s = Some OPEN
          then (s, [Send (RESET_ROOM pack (o_timerSeconds s) (o_showVotes s))])
          else (s, [Fetch_room_create (o_packId s) (o_timerSeconds s) (o_showVotes s)])
      | None \<Rightarrow> (s, [Fetch_room_create (o_packId s) (o_timerSeconds s) (o_showVotes s)]))"

definition room_created :: "OrganizerPage \<Rightarrow> string \<Rightarrow> string option \<Rightarrow> OrganizerPage \<times> effect list" where
  "room_created s code token =
     connectWs (s\<lparr>o_roomCode := code, o_organizerTokenRef := str_or token [],
                  o_state := OS_ROOM\<rparr>) code"

definition startGame :: "OrganizerPage \<Rightarrow> OrganizerPage \<times> effect list" where
  "startGame s = (s, Play ''gameStart'' # o_send s START_GAME @ o_send s NEXT_QUESTION)"

definition nextQuestion :: "OrganizerPage \<Rightarrow> OrganizerPage \<times> effect list" where
  "nextQuestion s = (s, o_send s NEXT_QUESTION)"

definition skipQuestion :: "OrganizerPage \<Rightarrow> OrganizerPage \<times> effect list" where
  "skipQuestion s = (s, o_send s SKIP_QUESTION)"

definition endGame :: "OrganizerPage \<Rightarrow> OrganizerPage \<times> effect list" where
  "endGame s = (s, o_send s END_GAME)"


definition playAgain :: "OrganizerPage \<Rightarrow> OrganizerPage \<times> effect list" where
  "playAgain s =
     (s\<lparr>o_questionNumber := 0, o_leaderboard := [], o_superlatives := [],
        o_roundHistory := [], o_roundResult := None, o_selectedTarget := None,
        o_hasVoted := False, o_state := OS_PROMPT\<rparr>, [])"

subsection \<open>Auto-advance\<close>

text \<open>
  The effect on \<open>[state, autoAdvance]\<close>: the interval held by \<open>autoTimerRef\<close> is cleared;
  in \<open>REVEAL\<close> with auto-advance on, the countdown is set to seven and a new one-second
  interval is started.
\<close>

definition auto_advance_effect :: "OrganizerPage \<Rightarrow> OrganizerPage" where
  "auto_advance_effect s =
     (if o_state s \<noteq> OS_REVEAL \<or> \<not> o_autoAdvance s
      then s\<lparr>o_autoTimerRef := False, o_autoCountdown := 0\<rparr>
      else s\<lparr>o_autoCountdown := 7, o_autoTimerRef := True\<rparr>)"

text \<open>
  One firing of the interval (it fires only while it has not been cleared): at one or
  below the interval is cleared and \<open>NEXT_QUESTION\<close> is sent, otherwise the countdown
  goes down by one.
\<close>

definition auto_tick :: "OrganizerPage \<Rightarrow> OrganizerPage \<times> effect list" where
  "auto_tick s =
     (if \<not> o_autoTimerRef s then (s, [])
      else if o_autoCountdown s \<le> 1
        then (s\<lparr>o_autoTimerRef := False, o_autoCountdown := 0\<rparr>, o_send s NEXT_QUESTION)
      else (s\<lparr>o_autoCountdown := o_autoCountdown s - 1\<rparr>, []))"

text \<open>The Next button of the auto mode clears the interval before it sends.\<close>

definition next_press :: "OrganizerPage \<Rightarrow> OrganizerPage \<times> effect list" where
  "next_press s = (s\<lparr>o_autoTimerRef := False\<rparr>, o_send s NEXT_QUESTION)"

subsection \<open>Events and effects after a render\<close>

text \<open>
  After the state updates of a handler are rendered, the effects whose dependencies
  changed run in the order of the source: \<open>stateRef\<close> and \<open>roomCodeRef\<close> follow their
  state, then the auto-advance effect.
\<close>

definition commit :: "OrganizerPage \<Rightarrow> OrganizerPage \<Rightarrow> OrganizerPage" where
  "commit prev s =
     (let s1 = (if o_state s \<noteq> o_state prev then s\<lparr>o_stateRef := o_state s\<rparr> else s);
          s2 = (if o_roomCode s \<noteq> o_roomCode prev then s1\<lparr>o_roomCodeRef := o_roomCode s\<rparr> else s1)
      in if o_state s \<noteq> o_state prev \<or> o_autoAdvance s \<noteq> o_autoAdvance prev
         then auto_advance_effect s2 else s2)"

text \<open>
  The events of the page.  A click reaches its handler only on the screen that renders
  the control: Start on the lobby screen with the button enabled; Skip on the question
  screen; End on the question and reveal screens; the reveal screen shows Next and Manual
  in auto mode, Next Question and Auto otherwise.
\<close>

datatype organizer_event =
    OMessage server_msg
  | OSocketOpen
  | OClose
  | OReconnectTimer
  | ORoomCreated string "string option"
  | OCreateRoomClick
  | OStartClick
  | OSkipClick
  | OEndClick
  | ONextPress
  | ONextQuestionClick
  | OManualClick
  | OAutoClick
  | OAutoTick
  | OPlayAgainClick

definition reveal_shown :: "OrganizerPage \<Rightarrow> bool" where
  "reveal_shown s \<longleftrightarrow> o_state s = OS_REVEAL \<and> o_roundResult s \<noteq> None"

fun organizer_handler :: "OrganizerPage \<Rightarrow> organizer_event \<Rightarrow> OrganizerPage \<times> effect list" where
  "organizer_handler s (OMessage m) = handleWsMessage s m"
| "organizer_handler s OSocketOpen =
     (case o_wsRef s of Some CONNECTING \<Rightarrow> (s\<lparr>o_wsRef := Some OPEN\<rparr>, []) | _ \<Rightarrow> (s, []))"
| "organizer_handler s OClose = o_onclose s"
| "organizer_handler s OReconnectTimer = connectWs s (o_roomCodeRef s)"
| "organizer_handler s (ORoomCreated code token) = room_created s code token"
| "organizer_handler s OCreateRoomClick =
     (if o_state s = OS_REVIEW \<and> o_pack s \<noteq> None then createRoom s else (s, []))"
| "organizer_handler s OStartClick =
     (if o_state s = OS_ROOM \<and> \<not> start_disabled (o_playerCount s) then startGame s else (s, []))"
| "organizer_handler s OSkipClick =
     (if o_state s = OS_QUESTION then skipQuestion s else (s, []))"
| "organizer_handler s OEndClick =
     (if o_state s = OS_QUESTION \<or> reveal_shown s then endGame s else (s, []))"
| "organizer_handler s ONextPress =
     (if reveal_shown s \<and> o_autoAdvance s then next_press s else (s, []))"
| "organizer_handler s ONextQuestionClick =
     (if reveal_shown s \<and> \<not> o_autoAdvance s then nextQuestion s else (s, []))"
| "organizer_handler s OManualClick =
     (if reveal_shown s \<and> o_autoAdvance s then (s\<lparr>o_autoAdvance := False\<rparr>, []) else (s, []))"
| "organizer_handler s OAutoClick =
     (if reveal_shown s \<and> \<not> o_autoAdvance s then (s\<lparr>o_autoAdvance := True\<rparr>, []) else (s, []))"
| "organizer_handler s OAutoTick = auto_tick s"
| "organizer_handler s OPlayAgainClick =
     (if o_state s = OS_PODIUM then playAgain s else (s, []))"

definition organizer_step :: "OrganizerPage \<Rightarrow> organizer_event \<Rightarrow> OrganizerPage \<times> effect list" where
  "organizer_step s e = (let (s1, out) = organizer_handler s e in (commit s s1, out))"

fun organizer_run :: "OrganizerPage \<Rightarrow> organizer_event list \<Rightarrow> OrganizerPage \<times> effect list" where
  "organizer_run s [] = (s, [])"
| "organizer_run s (e # es) =
     (let (s1, out1) = organizer_step s e; (s2, out2) = organizer_run s1 es in (s2, out1 @ out2))"

text \<open>The state the page is mounted with.\<close>

definition organizer_init :: OrganizerPage where
  "organizer_init =
     \<lparr>o_state = OS_PROMPT,
      o_pack = None,
      o_packId = [],
      o_timerSeconds = 30,
      o_showVotes = True,
      o_roomCode = [],
      o_playerCount = 0,
      o_players = [],
      o_currentPromptText = [],
      o_questionNumber = 0,
      o_totalQuestions = 0,
      o_timeRemaining = Some 60,
      o_votedCount = 0,
      o_roundResult = None,
      o_leaderboard = [],
      o_superlatives = [],
      o_roundHistory = [],
      o_selectedTarget = None,
      o_hasVoted = False,
      o_autoAdvance = True,
      o_autoCountdown = 0,
      o_autoTimerRef = False,
      o_wsRef = None,
      o_stateRef = OS_PROMPT,
      o_reconnectTimerRef = False,
      o_roomCodeRef = [],
      o_organizerTokenRef = []\<rparr>"

text \<open>What the reveal screen of the organizer page shows.\<close>

definition organizer_reveal_podium :: "OrganizerPage \<Rightarrow> podium_slot list option" where
  "organizer_reveal_podium s =
     (if o_state s = OS_REVEAL then map_option organizer_podium (o_roundResult s) else None)"

definition organizer_reveal_breakdown :: "OrganizerPage \<Rightarrow> (string \<times> string) list option" where
  "organizer_reveal_breakdown s =
     (if o_state s = OS_REVEAL
      then (case o_roundResult s of
              None \<Rightarrow> None
            | Some rr \<Rightarrow> organizer_breakdown (o_showVotes s) rr)
      else None)"

text \<open>
  The automatic \<open>NEXT_QUESTION\<close> sends of a run are those made by the interval's
  callback; \<open>in_reveal\<close> says that the page stays in \<open>REVEAL\<close> through a run.
\<close>

fun auto_sends :: "OrganizerPage \<Rightarrow> organizer_event list \<Rightarrow> nat" where
  "auto_sends s [] = 0"
| "auto_sends s (e # es) =
     (if e = OAutoTick then length (filter (\<lambda>x. x = Send NEXT_QUESTION) (snd (organizer_step s e)))
      else 0)
     + auto_sends (fst (organizer_step s e)) es"

fun in_reveal :: "OrganizerPage \<Rightarrow> organizer_event list \<Rightarrow> bool" where
  "in_reveal s [] = (o_state s = OS_REVEAL)"
| "in_reveal s (e # es) = (o_state s = OS_REVEAL \<and> in_reveal (fst (organizer_step s e)) es)"

section \<open>Round close: tally, podium and majority winner\<close>

text \<open>
  Modelled from the spec: the Voting Engine's tally.  The round close runs in the room
  orchestrator, whose code is not among the sources (the clients only display its
  \<open>PodiumEntry\<close> list).  The tally is the count of votes received per target.
\<close>

definition tally :: "Vote list \<Rightarrow> string \<Rightarrow> int" where
  "tally vs name = int (length (filter (\<lambda>v. target v = name) vs))"

text \<open>
  Modelled from the spec: the members of the podium, computed by the missing round close.
  Only players who received at least one vote appear; they are taken from the roster,
  which is in join order.
\<close>

definition recipients :: "PlayerInfo list \<Rightarrow> Vote list \<Rightarrow> PlayerInfo list" where
  "recipients ps vs = filter (\<lambda>p. tally vs (pi_nickname p) > 0) ps"

text \<open>
  Modelled from the spec: the order of the podium, computed by the missing round close.
  Targets are ranked by descending vote count; the sort is stable, so that players with
  equal counts stay in join order.
\<close>

definition by_votes :: "PlayerInfo list \<Rightarrow> Vote list \<Rightarrow> PlayerInfo list" where
  "by_votes ps vs = sort_key (\<lambda>p. - tally vs (pi_nickname p)) (recipients ps vs)"

text \<open>
  Modelled from the spec: a podium entry of the missing round close, which carries the
  nickname, the avatar, the vote count and the rank.
\<close>

definition podium_entry :: "Vote list \<Rightarrow> PlayerInfo \<Rightarrow> int \<Rightarrow> PodiumEntry" where
  "podium_entry vs p r =
     \<lparr>pe_nickname = pi_nickname p, pe_avatar = pi_avatar p,
      vote_count = tally vs (pi_nickname p), rank = r\<rparr>"

text \<open>
  Modelled from the spec: the ranks given by the missing round close.  Ties share the
  same rank and the next distinct count takes the next rank (two players tied for most
  votes are both rank 1, the next distinct count is rank 2, never rank 3).
  \<open>rank_from vs r c\<close> ranks the players that follow an entry of rank \<open>r\<close> and count \<open>c\<close>.
\<close>

fun rank_from :: "Vote list \<Rightarrow> int \<Rightarrow> int \<Rightarrow> PlayerInfo list \<Rightarrow> PodiumEntry list" where
  "rank_from vs r c [] = []"
| "rank_from vs r c (p # ps) =
     (let r' = (if tally vs (pi_nickname p) = c then r else r + 1)
      in podium_entry vs p r' # rank_from vs r' (tally vs (pi_nickname p)) ps)"

text \<open>
  Modelled from the spec: the podium of the missing round close, for a roster in join
  order and the accepted votes of the round.  The first entry has rank 1; if nobody
  received a vote the podium is empty.
\<close>

definition podium_of :: "PlayerInfo list \<Rightarrow> Vote list \<Rightarrow> PodiumEntry list" where
  "podium_of ps vs =
     (case by_votes ps vs of
        [] \<Rightarrow> []
      | p # rest \<Rightarrow> podium_entry vs p 1 # rank_from vs 1 (tally vs (pi_nickname p)) rest)"

text \<open>
  Modelled from the spec: the majority winner of the missing round close is the player
  with the most votes, the first by join order in case of a tie at the top; if nobody
  voted no winner is declared.
\<close>

definition majority_of :: "PlayerInfo list \<Rightarrow> Vote list \<Rightarrow> string option" where
  "majority_of ps vs =
     (case podium_of ps vs of [] \<Rightarrow> None | e # es \<Rightarrow> Some (pe_nickname e))"

section \<open>Example values\<close>

text \<open>The players and votes of the scenarios, used to run the definitions on concrete input.\<close>

definition alex :: PlayerInfo where
  "alex = \<lparr>pi_nickname = ''Alex'', pi_avatar = ''A''\<rparr>"

definition jordan :: PlayerInfo where
  "jordan = \<lparr>pi_nickname = ''Jordan'', pi_avatar = ''J''\<rparr>"

definition sam :: PlayerInfo where
  "sam = \<lparr>pi_nickname = ''Sam'', pi_avatar = ''S''\<rparr>"

definition riley :: PlayerInfo where
  "riley = \<lparr>pi_nickname = ''Riley'', pi_avatar = ''R''\<rparr>"

definition birthday_votes :: "Vote list" where
  "birthday_votes =
     [\<lparr>voter = ''Alex'', target = ''Jordan''\<rparr>,
      \<lparr>voter = ''Jordan'', target = ''Jordan''\<rparr>,
      \<lparr>voter = ''Sam'', target = ''Alex''\<rparr>]"

definition tie_votes :: "Vote list" where
  "tie_votes =
     [\<lparr>voter = ''Alex'', target = ''Sam''\<rparr>,
      \<lparr>voter = ''Jordan'', target = ''Sam''\<rparr>,
      \<lparr>voter = ''Sam'', target = ''Alex''\<rparr>,
      \<lparr>voter = ''Riley'', target = ''Alex''\<rparr>]"

definition casey :: PlayerInfo where
  "casey = \<lparr>pi_nickname = ''Casey'', pi_avatar = ''C''\<rparr>"

definition tie_and_third_votes :: "Vote list" where
  "tie_and_third_votes = tie_votes @ [\<lparr>voter = ''Casey'', target = ''Jordan''\<rparr>]"

definition birthday_prompt :: Prompt where
  "birthday_prompt = \<lparr>prompt_id = 1, prompt_text = ''Who forgets birthdays?''\<rparr>"

definition birthday_question :: question_msg where
  "birthday_question =
     \<lparr>q_prompt_text = Some ''Who forgets birthdays?'', q_question_number = 1,
      q_total_questions = 4, q_timer_seconds = 30, q_players = Some [alex, jordan, sam]\<rparr>"

definition birthday_result :: round_result_msg where
  "birthday_result =
     \<lparr>r_prompt = birthday_prompt,
      r_votes = Some birthday_votes,
      r_podium = Some
        [\<lparr>pe_nickname = ''Jordan'', pe_avatar = ''J'', vote_count = 2, rank = 1\<rparr>,
         \<lparr>pe_nickname = ''Alex'', pe_avatar = ''A'', vote_count = 1, rank = 2\<rparr>],
      r_majority_winner = Some ''Jordan'',
      r_prediction_points = Some [(''Alex'', 1), (''Jordan'', 1), (''Sam'', 0)]\<rparr>"

definition birthday_snapshot :: snapshot where
  "birthday_snapshot =
     \<lparr>s_state = ''QUESTION'', s_room_code = ''ABCD'', s_player_count = 3,
      s_players = Some [alex, jordan, sam], s_question_number = Some 1,
      s_total_questions = Some 4, s_timer_seconds = Some 30, s_time_remaining = Some 12,
      s_voted_count = Some 1, s_prompt_text = Some ''Who forgets birthdays?'',
      s_leaderboard = None, s_superlatives = None\<rparr>"




text \<open>
  A player whose saved session rejoins room \<open>ABCD\<close> as Sam, and an organizer whose new
  room \<open>ABCD\<close> is in its lobby with three players.
\<close>

definition sam_in_lobby :: PlayerPage where
  "sam_in_lobby =
     fst (player_run (player_init (Some ''ABCD'') (Some (''ABCD'', ''Sam'', ''S'')) ''S'')
       [RejoinTimer, Open, Message JOINED_ROOM])"

definition organizer_in_lobby :: OrganizerPage where
  "organizer_in_lobby =
     fst (organizer_run organizer_init
       [ORoomCreated ''ABCD'' (Some ''token''), OSocketOpen,
        OMessage (PLAYER_JOINED 3 (Some [alex, jordan, sam]))])"

section \<open>The review screen keeps prompt ids unique\<close>











section \<open>The podium row of the reveal screens\<close>

lemma ordered_slots:
  "ordered pod = [js_index pod 1, js_index pod 0, js_index pod 2]"
  by (auto simp: ordered_def js_index_def)

lemma render_podium_slots:
  "render_podium hm pod =
     [case js_index pod 1 of None \<Rightarrow> EmptySlot 0
        | Some e \<Rightarrow> EntrySlot e (hm (rank e)) (rank e = 1),
      case js_index pod 0 of None \<Rightarrow> EmptySlot 1
        | Some e \<Rightarrow> EntrySlot e (hm (rank e)) (rank e = 1),
      case js_index pod 2 of None \<Rightarrow> EmptySlot 2
        | Some e \<Rightarrow> EntrySlot e (hm (rank e)) (rank e = 1)]"
  by (simp add: render_podium_def ordered_slots render_slot_def eval_nat_numeral
      split: option.splits)

text \<open>
  Claim C9.  For every round result, whatever the length of its podium list, each of the
  three reveal screens renders exactly three slots: left the second entry of the list,
  in the centre the first, right the third.  An entry that the list does not have yields
  the empty slot (keyed by its display index); no index is read out of range.  A slot
  that is filled shows the entry with the bar height of its rank (60 for a rank other
  than 1, 2, 3) and the crown exactly for rank 1.
\<close>

theorem reveal_podium_total:
  "(let pod = podium rr;
        slot = (\<lambda>hm k i. if k < length pod
                  then EntrySlot (pod ! k) (hm (rank (pod ! k))) (rank (pod ! k) = 1)
                  else EmptySlot i)
    in organizer_podium rr =
         [slot heightMap_phone 1 0, slot heightMap_phone 0 1, slot heightMap_phone 2 2] \<and>
       player_podium rr =
         [slot heightMap_phone 1 0, slot heightMap_phone 0 1, slot heightMap_phone 2 2] \<and>
       spectator_podium rr =
         [slot heightMap_tv 1 0, slot heightMap_tv 0 1, slot heightMap_tv 2 2])"
  by (simp add: Let_def organizer_podium_def player_podium_def spectator_podium_def
      render_podium_slots js_index_def)

text \<open>The empty podium, and the two-entry podium of the birthday round.\<close>

theorem reveal_podium_total_witness:
  "player_podium (result_of_msg (birthday_result\<lparr>r_podium := None\<rparr>))
     = [EmptySlot 0, EmptySlot 1, EmptySlot 2] \<and>
   spectator_podium (result_of_msg birthday_result)
     = [EntrySlot \<lparr>pe_nickname = ''Alex'', pe_avatar = ''A'', vote_count = 1, rank = 2\<rparr> 120 False,
        EntrySlot \<lparr>pe_nickname = ''Jordan'', pe_avatar = ''J'', vote_count = 2, rank = 1\<rparr> 160 True,
        EmptySlot 2]"
  using reveal_podium_total [of "result_of_msg (birthday_result\<lparr>r_podium := None\<rparr>)"]
    reveal_podium_total [of "result_of_msg birthday_result"]
  by (simp add: Let_def result_of_msg_def birthday_result_def obj_or_def heightMap_tv_def)

section \<open>Facts about the organizer page used below\<close>

lemma commit_same [simp]: "commit s s = s"
  by (simp add: commit_def)

text \<open>The effects after a render touch only the two refs, the interval and the countdown.\<close>

lemma commit_frame:
  "commit prev s =
     s\<lparr>o_stateRef := o_stateRef (commit prev s),
       o_roomCodeRef := o_roomCodeRef (commit prev s),
       o_autoTimerRef := o_autoTimerRef (commit prev s),
       o_autoCountdown := o_autoCountdown (commit prev s)\<rparr>"
  by (simp add: commit_def auto_advance_effect_def Let_def)

lemma commit_fields [simp]:
  "o_state (commit prev s) = o_state s"
  "o_showVotes (commit prev s) = o_showVotes s"
  "o_roundResult (commit prev s) = o_roundResult s"
  "o_autoAdvance (commit prev s) = o_autoAdvance s"
  "o_wsRef (commit prev s) = o_wsRef s"
  "o_roomCode (commit prev s) = o_roomCode s"
  "o_playerCount (commit prev s) = o_playerCount s"
  "o_players (commit prev s) = o_players s"
  "o_questionNumber (commit prev s) = o_questionNumber s"
  "o_leaderboard (commit prev s) = o_leaderboard s"
  "o_superlatives (commit prev s) = o_superlatives s"
  "o_roundHistory (commit prev s) = o_roundHistory s"
  "o_selectedTarget (commit prev s) = o_selectedTarget s"
  "o_hasVoted (commit prev s) = o_hasVoted s"
  "o_reconnectTimerRef (commit prev s) = o_reconnectTimerRef s"
  by (simp_all add: commit_def auto_advance_effect_def Let_def)

text \<open>The message handler never sends anything.\<close>

lemma handleWsMessage_sends_nothing: "Send c \<notin> set (snd (handleWsMessage s m))"
  by (cases m) (auto simp: Let_def)

lemma organizer_step_snd: "snd (organizer_step s e) = snd (organizer_handler s e)"
  by (simp add: organizer_step_def split: prod.splits)

lemma organizer_step_fst: "fst (organizer_step s e) = commit s (fst (organizer_handler s e))"
  by (simp add: organizer_step_def split: prod.splits)

lemma o_send_START_GAME: "Send START_GAME \<in> set (o_send s c) \<longleftrightarrow> c = START_GAME \<and> o_wsRef s \<noteq> None"
  by (cases "o_wsRef s") (auto simp: o_send_def)

text \<open>The organizer's page of room \<open>ABCD\<close> in its lobby, field by field.\<close>

lemma organizer_in_lobby_eq:
  "organizer_in_lobby =
     organizer_init\<lparr>o_state := OS_ROOM, o_roomCode := ''ABCD'', o_playerCount := 3,
       o_players := [alex, jordan, sam], o_wsRef := Some OPEN, o_stateRef := OS_ROOM,
       o_roomCodeRef := ''ABCD'', o_organizerTokenRef := ''token''\<rparr>"
  by (simp add: organizer_in_lobby_def organizer_init_def organizer_step_def room_created_def
      connectWs_def commit_def auto_advance_effect_def str_or_def obj_or_def)

section \<open>Facts about the player page used below\<close>

lemma set_players_fields [simp]:
  "hasVoted (set_players ps s) = hasVoted s"
  "kickedRef (set_players ps s) = kickedRef s"
  "hasVoted (set_rosters ps s) = hasVoted s"
  "kickedRef (set_rosters ps s) = kickedRef s"
  by (simp_all add: set_players_def set_rosters_def split: option.splits)


section \<open>Starting the game from the lobby\<close>

lemma no_start_below_minimum:
  assumes "o_playerCount s < minPlayers"
  shows "Send START_GAME \<notin> set (snd (organizer_handler s e))"
proof (cases e)
  case (OMessage m)
  then show ?thesis by (simp add: handleWsMessage_sends_nothing)
next
  case OStartClick
  with assms show ?thesis by (simp add: start_disabled_def canStart_def)
qed (auto simp: o_onclose_def connectWs_def room_created_def createRoom_def skipQuestion_def
      endGame_def next_press_def nextQuestion_def auto_tick_def playAgain_def
      o_send_START_GAME split: option.splits readyState.splits)

text \<open>
  Claim C4.  The minimum player count of the lobby screen is the constant 3.  The Start
  button is enabled if and only if \<open>playerCount\<close> is at least that minimum.  Below the
  minimum a click on Start does nothing, and no event of the organizer page sends
  \<open>START_GAME\<close>; on the lobby screen with the minimum met and a socket attached, the click
  sends \<open>START_GAME\<close> followed by \<open>NEXT_QUESTION\<close>.
\<close>

theorem lobby_start_gate:
  "minPlayers = 3 \<and>
   (\<not> start_disabled n \<longleftrightarrow> n \<ge> minPlayers) \<and>
   (o_playerCount s < minPlayers \<longrightarrow>
      organizer_step s OStartClick = (s, []) \<and>
      Send START_GAME \<notin> set (snd (organizer_step s e))) \<and>
   (o_state s = OS_ROOM \<and> o_playerCount s \<ge> minPlayers \<and> o_wsRef s \<noteq> None \<longrightarrow>
      organizer_step s OStartClick =
        (s, [Play ''gameStart'', Send START_GAME, Send NEXT_QUESTION]))"
proof -
  have a: "o_playerCount s < minPlayers \<longrightarrow> organizer_step s OStartClick = (s, [])"
    by (simp add: organizer_step_def start_disabled_def canStart_def)
  have b: "o_playerCount s < minPlayers \<longrightarrow>
      Send START_GAME \<notin> set (snd (organizer_step s e))"
    using no_start_below_minimum [of s e] by (simp add: organizer_step_snd)
  have c: "o_state s = OS_ROOM \<and> o_playerCount s \<ge> minPlayers \<and> o_wsRef s \<noteq> None \<longrightarrow>
      organizer_step s OStartClick =
        (s, [Play ''gameStart'', Send START_GAME, Send NEXT_QUESTION])"
    by (auto simp: organizer_step_def start_disabled_def canStart_def startGame_def o_send_def)
  show ?thesis using a b c by (simp add: minPlayers_def start_disabled_def canStart_def)
qed

text \<open>The theorem in the lobby of room \<open>ABCD\<close>: with three players the click starts the
  game, and after one of them has left it does nothing.\<close>

theorem lobby_start_gate_witness:
  "o_playerCount (fst (organizer_step organizer_in_lobby
       (OMessage (PLAYER_LEFT 2 (Some [alex, jordan]))))) < minPlayers \<and>
   snd (organizer_step (fst (organizer_step organizer_in_lobby
       (OMessage (PLAYER_LEFT 2 (Some [alex, jordan]))))) OStartClick) = [] \<and>
   o_state organizer_in_lobby = OS_ROOM \<and> o_playerCount organizer_in_lobby \<ge> minPlayers \<and>
   snd (organizer_step organizer_in_lobby OStartClick) =
     [Play ''gameStart'', Send START_GAME, Send NEXT_QUESTION]"
proof -
  let ?s2 = "fst (organizer_step organizer_in_lobby (OMessage (PLAYER_LEFT 2 (Some [alex, jordan]))))"
  have two: "o_playerCount ?s2 < minPlayers"
    by (simp add: organizer_step_fst minPlayers_def)
  have three: "o_state organizer_in_lobby = OS_ROOM \<and> o_playerCount organizer_in_lobby \<ge> minPlayers
      \<and> o_wsRef organizer_in_lobby \<noteq> None"
    by (simp add: organizer_in_lobby_eq organizer_init_def minPlayers_def)
  from lobby_start_gate [of 3 ?s2 OStartClick] two
  have "snd (organizer_step ?s2 OStartClick) = []" by simp
  moreover from lobby_start_gate [of 3 organizer_in_lobby OStartClick] three
  have "snd (organizer_step organizer_in_lobby OStartClick) =
     [Play ''gameStart'', Send START_GAME, Send NEXT_QUESTION]" by simp
  ultimately show ?thesis using two three by simp
qed

section \<open>Who sees the vote breakdown\<close>

text \<open>
  Claim C3, as stated, fails for the organizer: the breakdown is not always shown there.
  An organizer whose \<open>showVotes\<close> setting is off receives the round result of the birthday
  round with its three votes, holds them in \<open>roundResult\<close>, and its reveal screen renders
  no breakdown card.
\<close>

theorem organizer_breakdown_hidden:
  "o_state (fst (organizer_step (organizer_in_lobby\<lparr>o_showVotes := False\<rparr>)
      (OMessage (ROUND_RESULT birthday_result)))) = OS_REVEAL \<and>
   map_option votes (o_roundResult (fst (organizer_step (organizer_in_lobby\<lparr>o_showVotes := False\<rparr>)
      (OMessage (ROUND_RESULT birthday_result))))) = Some birthday_votes \<and>
   length birthday_votes = 3 \<and>
   organizer_reveal_breakdown (fst (organizer_step (organizer_in_lobby\<lparr>o_showVotes := False\<rparr>)
      (OMessage (ROUND_RESULT birthday_result)))) = None"
  by (simp add: organizer_step_fst organizer_reveal_breakdown_def organizer_breakdown_def
      result_of_msg_def birthday_result_def birthday_votes_def obj_or_def)

text \<open>
  Claim C3 (amended).  After a \<open>ROUND_RESULT\<close> message, with \<open>msg.votes || []\<close> as the
  votes of the round result:
  \<^item> the organizer's reveal screen renders the breakdown exactly when the organizer's own
    \<open>showVotes\<close> setting is on and the votes are not empty;
  \<^item> the player's and the spectator's reveal screens render it exactly when the votes
    they received are not empty; they make no \<open>show_votes\<close> test of their own.
  A rendered breakdown lists the voter and target of every vote, in order (the player page
  writes \<open>You\<close> for its own nickname).
\<close>

theorem vote_breakdown_visibility:
  "(let vs = obj_or (r_votes m) [] in
     organizer_reveal_breakdown (fst (organizer_step s (OMessage (ROUND_RESULT m)))) =
       (if o_showVotes s \<and> vs \<noteq> [] then Some (map (\<lambda>v. (voter v, target v)) vs) else None) \<and>
     player_reveal_breakdown (fst (player_step p (Message (ROUND_RESULT m)))) =
       (if vs \<noteq> []
        then Some (map (\<lambda>v. (if voter v = nickname p then ''You'' else voter v, target v)) vs)
        else None) \<and>
     spectator_breakdown (result_of_msg m) =
       (if vs \<noteq> [] then Some (map (\<lambda>v. (voter v, target v)) vs) else None))"
  by (simp add: Let_def organizer_step_fst organizer_reveal_breakdown_def organizer_breakdown_def
      player_reveal_breakdown_def player_breakdown_def spectator_breakdown_def result_of_msg_def)

text \<open>The birthday round on the three screens, the organizer's with \<open>showVotes\<close> on.\<close>

theorem vote_breakdown_visibility_witness:
  "organizer_reveal_breakdown (fst (organizer_step organizer_in_lobby
      (OMessage (ROUND_RESULT birthday_result))))
     = Some [(''Alex'', ''Jordan''), (''Jordan'', ''Jordan''), (''Sam'', ''Alex'')] \<and>
   player_reveal_breakdown (fst (player_step sam_in_lobby (Message (ROUND_RESULT birthday_result))))
     = Some [(''Alex'', ''Jordan''), (''Jordan'', ''Jordan''), (''You'', ''Alex'')] \<and>
   spectator_breakdown (result_of_msg (birthday_result\<lparr>r_votes := None\<rparr>)) = None"
  using vote_breakdown_visibility [of birthday_result organizer_in_lobby sam_in_lobby]
    vote_breakdown_visibility [of "birthday_result\<lparr>r_votes := None\<rparr>" organizer_in_lobby sam_in_lobby]
  by (simp add: Let_def birthday_result_def birthday_votes_def obj_or_def organizer_in_lobby_eq
      organizer_init_def sam_in_lobby_def player_init_def joinRoom_def ws_onopen_def trim_def
      is_space_def str_or_def)

section \<open>One vote per round on the player page\<close>

lemma vote_sends_append [simp]: "vote_sends (a @ b) = vote_sends a + vote_sends b"
  by (simp add: vote_sends_def)

lemma vote_sends_Nil [simp]: "vote_sends [] = 0"
  by (simp add: vote_sends_def)








text \<open>
  The three messages are the only way back to an open vote card.  A \<open>RECONNECTED\<close>
  snapshot in state \<open>QUESTION\<close> is one of them: after it a tap sends a \<open>VOTE\<close> again,
  and whether the room accepts it is for the room to decide.
\<close>

lemma reconnected_reopens_vote:
  "filter is_vote_send
     (snd (player_run sam_in_lobby
        [Message (QUESTION birthday_question), VoteClick ''Alex'', VoteClick ''Sam'',
         Close, RejoinTimer, Open, Message (RECONNECTED birthday_snapshot),
         VoteClick ''Jordan'']))
   = [Send (VOTE ''Alex''), Send (VOTE ''Jordan'')]"
  by (simp add: sam_in_lobby_def player_init_def joinRoom_def ws_onopen_def ws_onclose_def
      trim_def is_space_def str_or_def num_or_def set_players_def birthday_question_def
      birthday_snapshot_def submitVote_def)

section \<open>A room that is gone stops the reconnection\<close>

text \<open>
  Claim C5.  When the player page receives \<open>ERROR\<close> with the message \<open>Room not found\<close>,
  it removes its saved session and returns to \<open>JOIN\<close>; the close of the socket that
  follows schedules no rejoin and leaves the page on the join screen.  When the organizer
  page receives \<open>ERROR\<close> with \<open>Room not found\<close> or \<open>Invalid organizer token\<close>, it clears
  its room code (state and ref) and returns to \<open>PROMPT\<close>; the close that follows
  schedules no reconnect and stores no timer.
\<close>

theorem room_gone_stops_reconnecting:
  "(let s1 = fst (player_step s (Message (ERROR ''Room not found'')))
    in session s1 = None \<and> state s1 = PS_JOIN \<and> error s1 = ''Room not found'' \<and>
       snd (player_step s1 Close) = [] \<and> state (fst (player_step s1 Close)) = PS_JOIN) \<and>
   (let o1 = fst (organizer_step os (OMessage (ERROR ''Room not found'')))
    in o_roomCode o1 = [] \<and> o_roomCodeRef o1 = [] \<and> o_state o1 = OS_PROMPT \<and>
       snd (organizer_step o1 OClose) = [] \<and>
       o_reconnectTimerRef (fst (organizer_step o1 OClose)) = o_reconnectTimerRef os) \<and>
   (let o1 = fst (organizer_step os (OMessage (ERROR ''Invalid organizer token'')))
    in o_roomCode o1 = [] \<and> o_roomCodeRef o1 = [] \<and> o_state o1 = OS_PROMPT \<and>
       snd (organizer_step o1 OClose) = [] \<and>
       o_reconnectTimerRef (fst (organizer_step o1 OClose)) = o_reconnectTimerRef os)"
proof -
  have p: "(let s1 = fst (player_step s (Message (ERROR ''Room not found'')))
    in session s1 = None \<and> state s1 = PS_JOIN \<and> error s1 = ''Room not found'' \<and>
       snd (player_step s1 Close) = [] \<and> state (fst (player_step s1 Close)) = PS_JOIN)"
    by (simp add: Let_def ws_onclose_def)
  have ref: "o_roomCodeRef (commit os (os\<lparr>o_roomCodeRef := [], o_roomCode := [], o_state := OS_PROMPT\<rparr>)) = []"
    by (simp add: commit_def auto_advance_effect_def Let_def)
  have o: "m = ''Room not found'' \<or> m = ''Invalid organizer token'' \<Longrightarrow>
    (let o1 = fst (organizer_step os (OMessage (ERROR m)))
    in o_roomCode o1 = [] \<and> o_roomCodeRef o1 = [] \<and> o_state o1 = OS_PROMPT \<and>
       snd (organizer_step o1 OClose) = [] \<and>
       o_reconnectTimerRef (fst (organizer_step o1 OClose)) = o_reconnectTimerRef os)" for m
    using ref
    by (auto simp: Let_def organizer_step_fst organizer_step_snd o_onclose_def)
  from p o [of "''Room not found''"] o [of "''Invalid organizer token''"]
  show ?thesis by simp
qed

text \<open>
  Sam's page and the organizer's page of room \<open>ABCD\<close>, both in the birthday round, when
  the room is gone: the error, then the close of the socket.  Without the error the same
  close schedules the rejoin and the reconnect.
\<close>

theorem room_gone_stops_reconnecting_witness:
  "player_run (fst (player_step sam_in_lobby (Message (QUESTION birthday_question))))
     [Message (ERROR ''Room not found''), Close]
   = ((fst (player_step sam_in_lobby (Message (QUESTION birthday_question))))
        \<lparr>session := None, state := PS_JOIN, error := ''Room not found''\<rparr>, []) \<and>
   snd (player_run (fst (player_step sam_in_lobby (Message (QUESTION birthday_question))))
     [Close]) = [SetTimeout_joinRoom 2000] \<and>
   snd (organizer_run (fst (organizer_step organizer_in_lobby (OMessage (QUESTION birthday_question))))
     [OMessage (ERROR ''Invalid organizer token''), OClose])
   = [ConsoleError ''Invalid organizer token''] \<and>
   snd (organizer_run (fst (organizer_step organizer_in_lobby (OMessage (QUESTION birthday_question))))
     [OClose]) = [SetTimeout_connectWs 2000]"
  using room_gone_stops_reconnecting
    [of "fst (player_step sam_in_lobby (Message (QUESTION birthday_question)))"
        "fst (organizer_step organizer_in_lobby (OMessage (QUESTION birthday_question)))"]
  by (simp add: Let_def sam_in_lobby_def player_init_def joinRoom_def ws_onopen_def trim_def
      is_space_def str_or_def set_players_def birthday_question_def ws_onclose_def
      organizer_in_lobby_eq organizer_init_def organizer_step_def commit_def
      auto_advance_effect_def o_onclose_def activeStates_def)

section \<open>A superseded connection does not rejoin\<close>





section \<open>What a room reset clears\<close>

lemma set_rosters_frame [simp]:
  "lobbyPlayers (set_rosters ps s) = obj_or ps (lobbyPlayers s)"
  "players (set_rosters ps s) = obj_or ps (players s)"
  "questionNumber (set_rosters ps s) = questionNumber s"
  "totalQuestions (set_rosters ps s) = totalQuestions s"
  "roundResult (set_rosters ps s) = roundResult s"
  "leaderboard (set_rosters ps s) = leaderboard s"
  "superlatives (set_rosters ps s) = superlatives s"
  "myPredictionPoints (set_rosters ps s) = myPredictionPoints s"
  "selectedTarget (set_rosters ps s) = selectedTarget s"
  "roomCode (set_rosters ps s) = roomCode s"
  "nickname (set_rosters ps s) = nickname s"
  "avatar (set_rosters ps s) = avatar s"
  "wsRef (set_rosters ps s) = wsRef s"
  "session (set_rosters ps s) = session s"
  "error (set_rosters ps s) = error s"
  by (simp_all add: set_rosters_def obj_or_def split: option.splits)

text \<open>
  Claim C7, as stated, fails for the organizer page: its \<open>ROOM_RESET\<close> handler clears no
  game-progress state.  The organizer of room \<open>ABCD\<close> receives the first question, the
  result of the birthday round and then \<open>ROOM_RESET\<close>: the page shows the lobby, and
  still holds question number 1 and the round result.
\<close>

theorem organizer_reset_keeps_progress:
  "o_state (fst (organizer_run organizer_in_lobby
      [OMessage (QUESTION birthday_question), OMessage (ROUND_RESULT birthday_result),
       OMessage (ROOM_RESET 3 (Some [alex, jordan, sam]))])) = OS_ROOM \<and>
   o_questionNumber (fst (organizer_run organizer_in_lobby
      [OMessage (QUESTION birthday_question), OMessage (ROUND_RESULT birthday_result),
       OMessage (ROOM_RESET 3 (Some [alex, jordan, sam]))])) = 1 \<and>
   o_roundResult (fst (organizer_run organizer_in_lobby
      [OMessage (QUESTION birthday_question), OMessage (ROUND_RESULT birthday_result),
       OMessage (ROOM_RESET 3 (Some [alex, jordan, sam]))])) = Some (result_of_msg birthday_result)"
  by (simp add: organizer_step_def birthday_question_def split_beta)

text \<open>
  Claim C7 (amended).  On \<open>ROOM_RESET\<close> the player page clears question number, total
  questions, round result, leaderboard, superlatives, prediction points and vote selection
  and returns to the lobby; both of its rosters become the player list carried by the
  message (they stay as they were when the message carries none); room code, nickname,
  avatar, socket, saved session and error text do not change.  The organizer page's
  \<open>ROOM_RESET\<close> handler sets the player count and the roster from the message (the empty
  list when it carries none) and shows the lobby; room code and socket do not change, and
  question number, round result, leaderboard, superlatives, round history and vote
  selection are left as they were: on the organizer page these are cleared by
  \<open>playAgain\<close>.
\<close>

theorem room_reset_frame:
  "(let s1 = fst (player_step s (Message (ROOM_RESET n ps)))
    in questionNumber s1 = 0 \<and> totalQuestions s1 = 0 \<and> roundResult s1 = None \<and>
       leaderboard s1 = [] \<and> superlatives s1 = [] \<and> myPredictionPoints s1 = 0 \<and>
       selectedTarget s1 = None \<and> \<not> hasVoted s1 \<and> state s1 = PS_LOBBY \<and>
       lobbyPlayers s1 = obj_or ps (lobbyPlayers s) \<and> players s1 = obj_or ps (players s) \<and>
       roomCode s1 = roomCode s \<and> nickname s1 = nickname s \<and> avatar s1 = avatar s \<and>
       wsRef s1 = wsRef s \<and> session s1 = session s \<and> error s1 = error s) \<and>
   (let o1 = fst (organizer_step os (OMessage (ROOM_RESET n ps)))
    in o_state o1 = OS_ROOM \<and> o_playerCount o1 = n \<and> o_players o1 = obj_or ps [] \<and>
       o_roomCode o1 = o_roomCode os \<and> o_wsRef o1 = o_wsRef os \<and>
       o_questionNumber o1 = o_questionNumber os \<and> o_roundResult o1 = o_roundResult os \<and>
       o_leaderboard o1 = o_leaderboard os \<and> o_superlatives o1 = o_superlatives os \<and>
       o_roundHistory o1 = o_roundHistory os \<and>
       o_selectedTarget o1 = o_selectedTarget os \<and> o_hasVoted o1 = o_hasVoted os) \<and>
   (let o2 = fst (playAgain os)
    in o_questionNumber o2 = 0 \<and> o_roundResult o2 = None \<and> o_leaderboard o2 = [] \<and>
       o_superlatives o2 = [] \<and> o_roundHistory o2 = [] \<and> o_selectedTarget o2 = None \<and>
       \<not> o_hasVoted o2 \<and> o_state o2 = OS_PROMPT)"
  by (simp add: Let_def organizer_step_fst playAgain_def)

text \<open>
  Sam's page after the birthday round, reset with Riley as a fourth player, and the
  organizer's page reset after it pressed Play Again on the final screen.
\<close>

theorem room_reset_frame_witness:
  "fst (player_run sam_in_lobby
      [Message (QUESTION birthday_question), VoteClick ''Alex'',
       Message (ROUND_RESULT birthday_result),
       Message (ROOM_RESET 4 (Some [alex, jordan, sam, riley]))])
   = sam_in_lobby\<lparr>currentPromptText := ''Who forgets birthdays?'', timerSeconds := 30,
       timeRemaining := Some 30, lobbyPlayers := [alex, jordan, sam, riley],
       players := [alex, jordan, sam, riley]\<rparr> \<and>
   o_questionNumber (fst (organizer_run organizer_in_lobby
      [OMessage (QUESTION birthday_question), OMessage (ROUND_RESULT birthday_result),
       OMessage (PODIUM \<lparr>p_leaderboard = None, p_superlatives = None, p_round_history = None\<rparr>),
       OPlayAgainClick, OMessage (ROOM_RESET 3 (Some [alex, jordan, sam]))])) = 0 \<and>
   o_roundResult (fst (organizer_run organizer_in_lobby
      [OMessage (QUESTION birthday_question), OMessage (ROUND_RESULT birthday_result),
       OMessage (PODIUM \<lparr>p_leaderboard = None, p_superlatives = None, p_round_history = None\<rparr>),
       OPlayAgainClick, OMessage (ROOM_RESET 3 (Some [alex, jordan, sam]))])) = None"
  using room_reset_frame
    [of "fst (player_run sam_in_lobby
          [Message (QUESTION birthday_question), VoteClick ''Alex'',
           Message (ROUND_RESULT birthday_result)])"
        4 "Some [alex, jordan, sam, riley]" organizer_in_lobby]
  by (simp add: Let_def sam_in_lobby_def player_init_def joinRoom_def ws_onopen_def trim_def
      is_space_def str_or_def obj_or_def set_players_def set_rosters_def birthday_question_def
      birthday_result_def result_of_msg_def points_of_def num_or_def submitVote_def
      organizer_step_def playAgain_def split_beta)

section \<open>The auto-advance countdown\<close>

lemma organizer_run_Cons:
  "organizer_run s (e # es) =
     (fst (organizer_run (fst (organizer_step s e)) es),
      snd (organizer_step s e) @ snd (organizer_run (fst (organizer_step s e)) es))"
  by (simp add: split_beta)

lemma organizer_run_append:
  "organizer_run s (xs @ ys) =
     (fst (organizer_run (fst (organizer_run s xs)) ys),
      snd (organizer_run s xs) @ snd (organizer_run (fst (organizer_run s xs)) ys))"
  by (induction xs arbitrary: s) (simp_all add: split_beta)

text \<open>While the countdown is above the number of ticks, each tick only lowers it.\<close>

lemma ticks_before_zero:
  assumes "o_autoTimerRef s" "int k < o_autoCountdown s"
  shows "organizer_run s (replicate k OAutoTick) =
           (s\<lparr>o_autoCountdown := o_autoCountdown s - int k\<rparr>, [])"
  using assms
proof (induction k arbitrary: s)
  case 0
  then show ?case by simp
next
  case (Suc k)
  let ?s1 = "s\<lparr>o_autoCountdown := o_autoCountdown s - 1\<rparr>"
  from Suc.prems have step: "organizer_step s OAutoTick = (?s1, [])"
    by (simp add: organizer_step_def auto_tick_def commit_def)
  from Suc.prems have "o_autoTimerRef ?s1" "int k < o_autoCountdown ?s1" by simp_all
  then have "organizer_run ?s1 (replicate k OAutoTick) =
      (?s1\<lparr>o_autoCountdown := o_autoCountdown ?s1 - int k\<rparr>, [])"
    by (rule Suc.IH)
  with step show ?case by (simp add: algebra_simps)
qed

lemma last_tick:
  assumes "o_autoTimerRef s" "o_autoCountdown s \<le> 1"
  shows "organizer_step s OAutoTick =
           (s\<lparr>o_autoTimerRef := False, o_autoCountdown := 0\<rparr>, o_send s NEXT_QUESTION)"
  using assms by (simp add: organizer_step_def auto_tick_def commit_def)

lemma seven_ticks:
  assumes "o_autoTimerRef s" "o_autoCountdown s = 7"
  shows "organizer_run s (replicate 7 OAutoTick) =
           (s\<lparr>o_autoTimerRef := False, o_autoCountdown := 0\<rparr>, o_send s NEXT_QUESTION)"
proof -
  have six: "organizer_run s (replicate 6 OAutoTick) = (s\<lparr>o_autoCountdown := 1\<rparr>, [])"
    using ticks_before_zero [of s 6] assms by simp
  have "replicate 7 OAutoTick = replicate 6 OAutoTick @ [OAutoTick]"
    by (simp add: eval_nat_numeral)
  then have "organizer_run s (replicate 7 OAutoTick) =
      organizer_run s (replicate 6 OAutoTick @ [OAutoTick])" by simp
  also have "\<dots> = (s\<lparr>o_autoTimerRef := False, o_autoCountdown := 0\<rparr>, o_send s NEXT_QUESTION)"
    unfolding organizer_run_append six using assms
    by (simp add: last_tick o_send_def)
  finally show ?thesis .
qed

text \<open>No handler starts the interval, and only the Auto button switches auto-advance on.\<close>

lemma handleWsMessage_auto:
  "o_autoTimerRef (fst (handleWsMessage s m)) = o_autoTimerRef s \<and>
   o_autoAdvance (fst (handleWsMessage s m)) = o_autoAdvance s"
  by (cases m) (auto simp: Let_def)

lemma handler_timer: "o_autoTimerRef (fst (organizer_handler s e)) \<Longrightarrow> o_autoTimerRef s"
proof (cases e)
  case (OMessage m)
  assume "o_autoTimerRef (fst (organizer_handler s e))"
  with OMessage show ?thesis by (simp add: handleWsMessage_auto)
qed (auto simp: o_onclose_def connectWs_def room_created_def createRoom_def startGame_def
      skipQuestion_def endGame_def next_press_def nextQuestion_def auto_tick_def playAgain_def
      split: option.splits readyState.splits if_splits)

lemma handler_auto:
  "o_autoAdvance (fst (organizer_handler s e)) \<Longrightarrow> e \<noteq> OAutoClick \<Longrightarrow> o_autoAdvance s"
proof (cases e)
  case (OMessage m)
  assume "o_autoAdvance (fst (organizer_handler s e))"
  with OMessage show ?thesis by (simp add: handleWsMessage_auto)
qed (auto simp: o_onclose_def connectWs_def room_created_def createRoom_def startGame_def
      skipQuestion_def endGame_def next_press_def nextQuestion_def auto_tick_def playAgain_def
      split: option.splits readyState.splits if_splits)

lemma step_timer:
  assumes "o_state s = OS_REVEAL" "o_state (fst (organizer_step s e)) = OS_REVEAL"
    "e \<noteq> OAutoClick" "o_autoTimerRef (fst (organizer_step s e))"
  shows "o_autoTimerRef s"
proof -
  let ?h = "fst (organizer_handler s e)"
  from assms(2) have st: "o_state ?h = OS_REVEAL" by (simp add: organizer_step_fst)
  show ?thesis
  proof (cases "o_autoAdvance ?h = o_autoAdvance s")
    case True
    with st assms(1) have "o_autoTimerRef (commit s ?h) = o_autoTimerRef ?h"
      by (simp add: commit_def Let_def)
    with assms(4) have "o_autoTimerRef ?h" by (simp add: organizer_step_fst)
    then show ?thesis by (rule handler_timer)
  next
    case False
    with handler_auto [of s e] assms(3) have "\<not> o_autoAdvance ?h" by blast
    with False st assms(1) have "\<not> o_autoTimerRef (commit s ?h)"
      by (simp add: commit_def auto_advance_effect_def Let_def)
    with assms(4) show ?thesis by (simp add: organizer_step_fst)
  qed
qed

lemma tick_sends:
  "length (filter (\<lambda>x. x = Send NEXT_QUESTION) (snd (organizer_step s OAutoTick)))
     \<le> (if o_autoTimerRef s \<and> \<not> o_autoTimerRef (fst (organizer_step s OAutoTick)) then 1 else 0)"
  by (cases "o_wsRef s")
     (auto simp: organizer_step_def auto_tick_def commit_def o_send_def)

lemma in_reveal_state: "in_reveal s es \<Longrightarrow> o_state s = OS_REVEAL"
  by (cases es) simp_all

lemma auto_sends_bound:
  assumes "in_reveal s es" "OAutoClick \<notin> set es"
  shows "auto_sends s es \<le> (if o_autoTimerRef s then 1 else 0)"
  using assms
proof (induction es arbitrary: s)
  case Nil
  then show ?case by simp
next
  case (Cons e es)
  let ?s1 = "fst (organizer_step s e)"
  from Cons.prems have here: "o_state s = OS_REVEAL" and rest: "in_reveal ?s1 es"
    and e: "e \<noteq> OAutoClick" and es: "OAutoClick \<notin> set es" by auto
  from rest have there: "o_state ?s1 = OS_REVEAL" by (rule in_reveal_state)
  have ih: "auto_sends ?s1 es \<le> (if o_autoTimerRef ?s1 then 1 else 0)"
    using rest es by (rule Cons.IH)
  have mono: "o_autoTimerRef ?s1 \<Longrightarrow> o_autoTimerRef s"
    using step_timer [OF here there e] by blast
  show ?case
  proof (cases "e = OAutoTick")
    case True
    with tick_sends [of s] ih mono show ?thesis by (auto split: if_splits)
  next
    case False
    with ih mono show ?thesis by (auto split: if_splits)
  qed
qed

text \<open>
  Claim C10, as stated, fails: one stay in \<open>REVEAL\<close> can produce two automatic sends.
  The organizer of room \<open>ABCD\<close> is shown the result of the birthday round with
  auto-advance on.  Seven ticks send the first \<open>NEXT_QUESTION\<close>; no message changes the
  state; the organizer presses Manual and then Auto, which starts a new countdown; seven
  more ticks send a second automatic \<open>NEXT_QUESTION\<close>.
\<close>

theorem auto_advance_sends_twice:
  "in_reveal
     (fst (organizer_run organizer_in_lobby
        [OMessage (QUESTION birthday_question), OMessage (ROUND_RESULT birthday_result)]))
     [OAutoTick, OAutoTick, OAutoTick, OAutoTick, OAutoTick, OAutoTick, OAutoTick,
      OManualClick, OAutoClick,
      OAutoTick, OAutoTick, OAutoTick, OAutoTick, OAutoTick, OAutoTick, OAutoTick] \<and>
   auto_sends
     (fst (organizer_run organizer_in_lobby
        [OMessage (QUESTION birthday_question), OMessage (ROUND_RESULT birthday_result)]))
     [OAutoTick, OAutoTick, OAutoTick, OAutoTick, OAutoTick, OAutoTick, OAutoTick,
      OManualClick, OAutoClick,
      OAutoTick, OAutoTick, OAutoTick, OAutoTick, OAutoTick, OAutoTick, OAutoTick] = 2"
  by (simp add: organizer_in_lobby_eq organizer_init_def organizer_step_def commit_def
      auto_advance_effect_def auto_tick_def o_send_def reveal_shown_def split_beta)

text \<open>
  Claim C10 (amended).  On the organizer page:
  \<^item> a round result that arrives outside \<open>REVEAL\<close> with auto-advance on starts the
    interval with the countdown at seven, and so does switching auto-advance back on
    from the reveal screen;
  \<^item> from a countdown of seven, each of the first six ticks only lowers the countdown,
    and the seventh clears the interval, sets the countdown to zero and sends one
    \<open>NEXT_QUESTION\<close> if a socket is attached (none otherwise); a tick without interval
    does nothing;
  \<^item> the interval is cleared by every event that leaves \<open>REVEAL\<close>, by the Manual button
    and by the Next button of the auto mode (which sends its own \<open>NEXT_QUESTION\<close>);
  \<^item> hence a stay in \<open>REVEAL\<close> during which auto-advance is not switched on again
    produces at most one automatic \<open>NEXT_QUESTION\<close>.
\<close>

theorem auto_advance_countdown:
  "(o_state s \<noteq> OS_REVEAL \<and> o_autoAdvance s \<longrightarrow>
      (let s1 = fst (organizer_step s (OMessage (ROUND_RESULT m)))
       in o_state s1 = OS_REVEAL \<and> o_autoTimerRef s1 \<and> o_autoCountdown s1 = 7)) \<and>
   (reveal_shown s \<and> \<not> o_autoAdvance s \<longrightarrow>
      (let s1 = fst (organizer_step s OAutoClick)
       in o_state s1 = OS_REVEAL \<and> o_autoTimerRef s1 \<and> o_autoCountdown s1 = 7)) \<and>
   (o_autoTimerRef s \<and> o_autoCountdown s = 7 \<longrightarrow>
      (\<forall>k<7. organizer_run s (replicate k OAutoTick) =
                (s\<lparr>o_autoCountdown := 7 - int k\<rparr>, [])) \<and>
      organizer_run s (replicate 7 OAutoTick) =
        (s\<lparr>o_autoTimerRef := False, o_autoCountdown := 0\<rparr>,
         case o_wsRef s of None \<Rightarrow> [] | Some r \<Rightarrow> [Send NEXT_QUESTION])) \<and>
   (\<not> o_autoTimerRef s \<longrightarrow> organizer_step s OAutoTick = (s, [])) \<and>
   (o_state s = OS_REVEAL \<and> o_state (fst (organizer_step s e)) \<noteq> OS_REVEAL \<longrightarrow>
      \<not> o_autoTimerRef (fst (organizer_step s e))) \<and>
   (reveal_shown s \<and> o_autoAdvance s \<longrightarrow>
      \<not> o_autoTimerRef (fst (organizer_step s OManualClick)) \<and>
      snd (organizer_step s OManualClick) = []) \<and>
   (reveal_shown s \<and> o_autoAdvance s \<longrightarrow>
      \<not> o_autoTimerRef (fst (organizer_step s ONextPress)) \<and>
      snd (organizer_step s ONextPress) = o_send s NEXT_QUESTION) \<and>
   (in_reveal s es \<and> OAutoClick \<notin> set es \<longrightarrow> auto_sends s es \<le> 1)"
proof -
  have a: "o_state s \<noteq> OS_REVEAL \<and> o_autoAdvance s \<longrightarrow>
      (let s1 = fst (organizer_step s (OMessage (ROUND_RESULT m)))
       in o_state s1 = OS_REVEAL \<and> o_autoTimerRef s1 \<and> o_autoCountdown s1 = 7)"
    by (simp add: Let_def organizer_step_def commit_def auto_advance_effect_def)
  have b: "reveal_shown s \<and> \<not> o_autoAdvance s \<longrightarrow>
      (let s1 = fst (organizer_step s OAutoClick)
       in o_state s1 = OS_REVEAL \<and> o_autoTimerRef s1 \<and> o_autoCountdown s1 = 7)"
    by (simp add: Let_def organizer_step_def commit_def auto_advance_effect_def reveal_shown_def)
  have c: "o_autoTimerRef s \<and> o_autoCountdown s = 7 \<longrightarrow>
      (\<forall>k<7. organizer_run s (replicate k OAutoTick) =
                (s\<lparr>o_autoCountdown := 7 - int k\<rparr>, [])) \<and>
      organizer_run s (replicate 7 OAutoTick) =
        (s\<lparr>o_autoTimerRef := False, o_autoCountdown := 0\<rparr>,
         case o_wsRef s of None \<Rightarrow> [] | Some r \<Rightarrow> [Send NEXT_QUESTION])"
  proof
    assume h: "o_autoTimerRef s \<and> o_autoCountdown s = 7"
    have "organizer_run s (replicate k OAutoTick) = (s\<lparr>o_autoCountdown := 7 - int k\<rparr>, [])"
      if "k < 7" for k
      using ticks_before_zero [of s k] h that by simp
    moreover have "organizer_run s (replicate 7 OAutoTick) =
        (s\<lparr>o_autoTimerRef := False, o_autoCountdown := 0\<rparr>,
         case o_wsRef s of None \<Rightarrow> [] | Some r \<Rightarrow> [Send NEXT_QUESTION])"
      using seven_ticks [of s] h by (simp add: o_send_def)
    ultimately show "(\<forall>k<7. organizer_run s (replicate k OAutoTick) =
                (s\<lparr>o_autoCountdown := 7 - int k\<rparr>, [])) \<and>
      organizer_run s (replicate 7 OAutoTick) =
        (s\<lparr>o_autoTimerRef := False, o_autoCountdown := 0\<rparr>,
         case o_wsRef s of None \<Rightarrow> [] | Some r \<Rightarrow> [Send NEXT_QUESTION])"
      by blast
  qed
  have d: "\<not> o_autoTimerRef s \<longrightarrow> organizer_step s OAutoTick = (s, [])"
    by (simp add: organizer_step_def auto_tick_def)
  have e: "o_state s = OS_REVEAL \<and> o_state (fst (organizer_step s e)) \<noteq> OS_REVEAL \<longrightarrow>
      \<not> o_autoTimerRef (fst (organizer_step s e))"
    by (auto simp: organizer_step_fst commit_def auto_advance_effect_def Let_def)
  have f: "reveal_shown s \<and> o_autoAdvance s \<longrightarrow>
      \<not> o_autoTimerRef (fst (organizer_step s OManualClick)) \<and>
      snd (organizer_step s OManualClick) = []"
    by (simp add: organizer_step_def commit_def auto_advance_effect_def)
  have g: "reveal_shown s \<and> o_autoAdvance s \<longrightarrow>
      \<not> o_autoTimerRef (fst (organizer_step s ONextPress)) \<and>
      snd (organizer_step s ONextPress) = o_send s NEXT_QUESTION"
    by (simp add: organizer_step_def commit_def next_press_def o_send_def)
  have h: "in_reveal s es \<and> OAutoClick \<notin> set es \<longrightarrow> auto_sends s es \<le> 1"
    using auto_sends_bound [of s es] by (auto split: if_splits)
  from a b c d e f g h show ?thesis by blast
qed

lemma organizer_in_reveal_eq:
  "fst (organizer_run organizer_in_lobby
      [OMessage (QUESTION birthday_question), OMessage (ROUND_RESULT birthday_result)])
   = organizer_in_lobby
       \<lparr>o_state := OS_REVEAL, o_currentPromptText := ''Who forgets birthdays?'',
        o_questionNumber := 1, o_totalQuestions := 4, o_timeRemaining := Some 30,
        o_roundResult := Some (result_of_msg birthday_result),
        o_autoCountdown := 7, o_autoTimerRef := True, o_stateRef := OS_REVEAL\<rparr>"
  by (simp add: organizer_in_lobby_eq organizer_init_def organizer_step_def commit_def
      auto_advance_effect_def birthday_question_def str_or_def split_beta)

text \<open>
  The theorem on the organizer's page of room \<open>ABCD\<close>, shown the result of the birthday
  round with auto-advance on: seven ticks send one \<open>NEXT_QUESTION\<close>, and the eighth tick,
  the Manual button and a ninth tick add none.
\<close>

theorem auto_advance_countdown_witness:
  "o_autoTimerRef (fst (organizer_run organizer_in_lobby
      [OMessage (QUESTION birthday_question), OMessage (ROUND_RESULT birthday_result)])) \<and>
   o_autoCountdown (fst (organizer_run organizer_in_lobby
      [OMessage (QUESTION birthday_question), OMessage (ROUND_RESULT birthday_result)])) = 7 \<and>
   snd (organizer_run (fst (organizer_run organizer_in_lobby
      [OMessage (QUESTION birthday_question), OMessage (ROUND_RESULT birthday_result)]))
      (replicate 7 OAutoTick)) = [Send NEXT_QUESTION] \<and>
   in_reveal (fst (organizer_run organizer_in_lobby
      [OMessage (QUESTION birthday_question), OMessage (ROUND_RESULT birthday_result)]))
     [OAutoTick, OAutoTick, OAutoTick, OAutoTick, OAutoTick, OAutoTick, OAutoTick,
      OAutoTick, OManualClick, OAutoTick] \<and>
   auto_sends (fst (organizer_run organizer_in_lobby
      [OMessage (QUESTION birthday_question), OMessage (ROUND_RESULT birthday_result)]))
     [OAutoTick, OAutoTick, OAutoTick, OAutoTick, OAutoTick, OAutoTick, OAutoTick,
      OAutoTick, OManualClick, OAutoTick] \<le> 1"
proof -
  let ?s = "fst (organizer_run organizer_in_lobby
      [OMessage (QUESTION birthday_question), OMessage (ROUND_RESULT birthday_result)])"
  let ?es = "[OAutoTick, OAutoTick, OAutoTick, OAutoTick, OAutoTick, OAutoTick, OAutoTick,
      OAutoTick, OManualClick, OAutoTick]"
  have t: "o_autoTimerRef ?s \<and> o_autoCountdown ?s = 7 \<and> o_wsRef ?s = Some OPEN"
    unfolding organizer_in_reveal_eq
    by (simp add: organizer_in_lobby_eq organizer_init_def)
  have r: "in_reveal ?s ?es"
    unfolding organizer_in_reveal_eq
    by (simp add: organizer_in_lobby_eq organizer_init_def organizer_step_def commit_def
      auto_advance_effect_def auto_tick_def o_send_def reveal_shown_def split_beta)
  have n: "OAutoClick \<notin> set ?es" by simp
  from auto_advance_countdown [of ?s birthday_result OAutoTick ?es] t r n
  have "snd (organizer_run ?s (replicate 7 OAutoTick)) = [Send NEXT_QUESTION]
      \<and> auto_sends ?s ?es \<le> 1"
    by simp
  with t r show ?thesis by blast
qed

section \<open>The podium of a closed round\<close>

lemma rank_from_counts:
  "map vote_count (rank_from vs r c xs) = map (\<lambda>p. tally vs (pi_nickname p)) xs"
  by (induction xs arbitrary: r c) (simp_all add: Let_def podium_entry_def)

lemma rank_from_names:
  "map pe_nickname (rank_from vs r c xs) = map pi_nickname xs"
  by (induction xs arbitrary: r c) (simp_all add: Let_def podium_entry_def)

lemma podium_counts:
  "map vote_count (podium_of ps vs) = map (\<lambda>p. tally vs (pi_nickname p)) (by_votes ps vs)"
  by (simp add: podium_of_def rank_from_counts podium_entry_def split: list.splits)

lemma podium_names:
  "map pe_nickname (podium_of ps vs) = map pi_nickname (by_votes ps vs)"
  by (simp add: podium_of_def rank_from_names podium_entry_def split: list.splits)

lemma set_by_votes: "set (by_votes ps vs) = {p \<in> set ps. tally vs (pi_nickname p) \<ge> 1}"
  by (auto simp: by_votes_def recipients_def)

lemma by_votes_sorted:
  "sorted_wrt (\<lambda>p q. tally vs (pi_nickname p) \<ge> tally vs (pi_nickname q)) (by_votes ps vs)"
proof -
  have "sorted (map (\<lambda>p. - tally vs (pi_nickname p)) (by_votes ps vs))"
    unfolding by_votes_def by (rule sorted_sort_key)
  then show ?thesis by (simp add: sorted_map)
qed

text \<open>Each rank is the rank before it, or one more where the count changes.\<close>

lemma rank_from_dense:
  "\<forall>i. Suc i < length (podium_entry vs p r # rank_from vs r (tally vs (pi_nickname p)) xs) \<longrightarrow>
     rank ((podium_entry vs p r # rank_from vs r (tally vs (pi_nickname p)) xs) ! Suc i) =
       (if vote_count ((podium_entry vs p r # rank_from vs r (tally vs (pi_nickname p)) xs) ! Suc i)
           = vote_count ((podium_entry vs p r # rank_from vs r (tally vs (pi_nickname p)) xs) ! i)
        then rank ((podium_entry vs p r # rank_from vs r (tally vs (pi_nickname p)) xs) ! i)
        else rank ((podium_entry vs p r # rank_from vs r (tally vs (pi_nickname p)) xs) ! i) + 1)"
proof (induction xs arbitrary: p r)
  case Nil
  then show ?case by simp
next
  case (Cons q qs)
  let ?r' = "if tally vs (pi_nickname q) = tally vs (pi_nickname p) then r else r + 1"
  let ?tail = "podium_entry vs q ?r' # rank_from vs ?r' (tally vs (pi_nickname q)) qs"
  have unfold: "podium_entry vs p r # rank_from vs r (tally vs (pi_nickname p)) (q # qs)
      = podium_entry vs p r # ?tail"
    by (simp add: Let_def)
  show ?case
    unfolding unfold
  proof (intro allI impI)
    fix i
    assume len: "Suc i < length (podium_entry vs p r # ?tail)"
    show "rank ((podium_entry vs p r # ?tail) ! Suc i) =
       (if vote_count ((podium_entry vs p r # ?tail) ! Suc i)
           = vote_count ((podium_entry vs p r # ?tail) ! i)
        then rank ((podium_entry vs p r # ?tail) ! i)
        else rank ((podium_entry vs p r # ?tail) ! i) + 1)"
    proof (cases i)
      case 0
      then show ?thesis by (simp add: podium_entry_def)
    next
      case (Suc j)
      with len have "Suc j < length ?tail" by simp
      with Cons.IH [of q ?r'] Suc show ?thesis by simp
    qed
  qed
qed

lemma podium_dense:
  assumes "Suc i < length (podium_of ps vs)"
  shows "rank (podium_of ps vs ! Suc i) =
       (if vote_count (podium_of ps vs ! Suc i) = vote_count (podium_of ps vs ! i)
        then rank (podium_of ps vs ! i) else rank (podium_of ps vs ! i) + 1)"
proof (cases "by_votes ps vs")
  case Nil
  with assms show ?thesis by (simp add: podium_of_def)
next
  case (Cons p rest)
  then have eq: "podium_of ps vs =
      podium_entry vs p 1 # rank_from vs 1 (tally vs (pi_nickname p)) rest"
    by (simp add: podium_of_def)
  from assms rank_from_dense [of vs p 1 rest] show ?thesis
    unfolding eq by blast
qed

lemma podium_first_rank: "podium_of ps vs \<noteq> [] \<Longrightarrow> rank (hd (podium_of ps vs)) = 1"
  by (auto simp: podium_of_def podium_entry_def split: list.splits)

lemma podium_sorted:
  "sorted_wrt (\<lambda>a b. vote_count a \<ge> vote_count b) (podium_of ps vs)"
proof -
  have "sorted_wrt (\<lambda>a b. a \<ge> b) (map vote_count (podium_of ps vs))"
    unfolding podium_counts using by_votes_sorted [of vs ps] by (simp add: sorted_wrt_map)
  then show ?thesis by (simp add: sorted_wrt_map)
qed

lemma podium_members:
  assumes "e \<in> set (podium_of ps vs)"
  shows "vote_count e \<ge> 1 \<and> vote_count e = tally vs (pe_nickname e) \<and>
         (\<exists>p \<in> set ps. pe_nickname e = pi_nickname p \<and> pe_avatar e = pi_avatar p)"
proof -
  have gen: "e \<in> set (rank_from vs r c xs) \<Longrightarrow>
      \<exists>p \<in> set xs. e = podium_entry vs p (rank e)" for r c xs
    by (induction xs arbitrary: r c) (auto simp: Let_def podium_entry_def)
  have "\<exists>p \<in> set (by_votes ps vs). e = podium_entry vs p (rank e)"
  proof (cases "by_votes ps vs")
    case Nil
    with assms show ?thesis by (simp add: podium_of_def)
  next
    case (Cons p rest)
    with assms have "e = podium_entry vs p 1 \<or>
        e \<in> set (rank_from vs 1 (tally vs (pi_nickname p)) rest)"
      by (simp add: podium_of_def)
    then show ?thesis
    proof
      assume "e = podium_entry vs p 1"
      then have "e = podium_entry vs p (rank e)" by (simp add: podium_entry_def)
      with Cons show ?thesis by auto
    next
      assume "e \<in> set (rank_from vs 1 (tally vs (pi_nickname p)) rest)"
      from gen [OF this] Cons show ?thesis by auto
    qed
  qed
  then obtain p where p: "p \<in> set (by_votes ps vs)" "e = podium_entry vs p (rank e)" by blast
  from p(1) have "p \<in> set ps" "tally vs (pi_nickname p) \<ge> 1" by (auto simp: set_by_votes)
  moreover from p(2) have "pe_nickname e = pi_nickname p" "pe_avatar e = pi_avatar p"
      "vote_count e = tally vs (pi_nickname p)"
    by (metis PodiumEntry.select_convs(1) podium_entry_def,
        metis PodiumEntry.select_convs(2) podium_entry_def,
        metis PodiumEntry.select_convs(3) podium_entry_def)
  ultimately show ?thesis by auto
qed

lemma podium_empty:
  assumes "\<forall>p \<in> set ps. tally vs (pi_nickname p) = 0"
  shows "podium_of ps vs = [] \<and> majority_of ps vs = None"
proof -
  from assms have "recipients ps vs = []" by (auto simp: recipients_def filter_empty_conv)
  then have "by_votes ps vs = []" by (simp add: by_votes_def)
  then show ?thesis by (simp add: podium_of_def majority_of_def)
qed

text \<open>
  Claim C2.  For every closed round (a roster in join order and the accepted votes), the
  podium lists the vote recipients by descending vote count; the first entry has rank 1,
  and every further entry has the rank of the entry before it when their counts are
  equal and that rank plus one otherwise (so ties share a rank and no rank is skipped);
  every entry has at least one vote, its count is the tally of its nickname, and the
  nicknames on the podium are exactly those of the players with at least one vote.  When
  no player received a vote the podium is empty and no majority winner is declared;
  otherwise the majority winner is the first entry.
\<close>

theorem podium_ranks_share_ties:
  "(let pod = podium_of ps vs
    in sorted_wrt (\<lambda>a b. vote_count a \<ge> vote_count b) pod \<and>
       (pod \<noteq> [] \<longrightarrow>
          rank (hd pod) = 1 \<and> majority_of ps vs = Some (pe_nickname (hd pod))) \<and>
       (\<forall>i. Suc i < length pod \<longrightarrow>
          rank (pod ! Suc i) =
            (if vote_count (pod ! Suc i) = vote_count (pod ! i)
             then rank (pod ! i) else rank (pod ! i) + 1)) \<and>
       (\<forall>e \<in> set pod. vote_count e \<ge> 1 \<and> vote_count e = tally vs (pe_nickname e)) \<and>
       set (map pe_nickname pod) = {n \<in> set (map pi_nickname ps). tally vs n \<ge> 1} \<and>
       ((\<forall>p \<in> set ps. tally vs (pi_nickname p) = 0) \<longrightarrow>
          pod = [] \<and> majority_of ps vs = None))"
proof -
  let ?pod = "podium_of ps vs"
  have first: "?pod \<noteq> [] \<longrightarrow>
      rank (hd ?pod) = 1 \<and> majority_of ps vs = Some (pe_nickname (hd ?pod))"
    using podium_first_rank [of ps vs] by (auto simp: majority_of_def split: list.splits)
  have dense: "\<forall>i. Suc i < length ?pod \<longrightarrow>
          rank (?pod ! Suc i) =
            (if vote_count (?pod ! Suc i) = vote_count (?pod ! i)
             then rank (?pod ! i) else rank (?pod ! i) + 1)"
    using podium_dense [of _ ps vs] by blast
  have members: "\<forall>e \<in> set ?pod. vote_count e \<ge> 1 \<and> vote_count e = tally vs (pe_nickname e)"
    using podium_members [of _ ps vs] by blast
  have names: "set (map pe_nickname ?pod) = {n \<in> set (map pi_nickname ps). tally vs n \<ge> 1}"
    unfolding podium_names by (auto simp: set_by_votes)
  have none: "(\<forall>p \<in> set ps. tally vs (pi_nickname p) = 0) \<longrightarrow>
          ?pod = [] \<and> majority_of ps vs = None"
    using podium_empty [of ps vs] by blast
  from podium_sorted [of ps vs] first dense members names none
  show ?thesis unfolding Let_def by blast
qed

text \<open>
  The theorem on the spec's scenarios: the birthday round; the tie of Alex and Sam, who
  share rank 1; the same tie with a fifth vote for Jordan, who takes rank 2 (not 3); and
  a round in which nobody voted.
\<close>

theorem podium_ranks_share_ties_witness:
  "podium_of [alex, jordan, sam] birthday_votes =
     [\<lparr>pe_nickname = ''Jordan'', pe_avatar = ''J'', vote_count = 2, rank = 1\<rparr>,
      \<lparr>pe_nickname = ''Alex'', pe_avatar = ''A'', vote_count = 1, rank = 2\<rparr>] \<and>
   majority_of [alex, jordan, sam] birthday_votes = Some ''Jordan'' \<and>
   podium_of [alex, jordan, sam, riley] tie_votes =
     [\<lparr>pe_nickname = ''Alex'', pe_avatar = ''A'', vote_count = 2, rank = 1\<rparr>,
      \<lparr>pe_nickname = ''Sam'', pe_avatar = ''S'', vote_count = 2, rank = 1\<rparr>] \<and>
   podium_of [alex, jordan, sam, riley, casey] tie_and_third_votes =
     [\<lparr>pe_nickname = ''Alex'', pe_avatar = ''A'', vote_count = 2, rank = 1\<rparr>,
      \<lparr>pe_nickname = ''Sam'', pe_avatar = ''S'', vote_count = 2, rank = 1\<rparr>,
      \<lparr>pe_nickname = ''Jordan'', pe_avatar = ''J'', vote_count = 1, rank = 2\<rparr>] \<and>
   podium_of [alex, jordan, sam] [] = [] \<and>
   majority_of [alex, jordan, sam] [] = None"
proof -
  have zero: "\<forall>p \<in> set [alex, jordan, sam]. tally [] (pi_nickname p) = 0"
    by (simp add: tally_def)
  from podium_ranks_share_ties [of "[alex, jordan, sam]" "[]"] zero
  have "podium_of [alex, jordan, sam] [] = [] \<and> majority_of [alex, jordan, sam] [] = None"
    unfolding Let_def by blast
  moreover have "podium_of [alex, jordan, sam] birthday_votes =
     [\<lparr>pe_nickname = ''Jordan'', pe_avatar = ''J'', vote_count = 2, rank = 1\<rparr>,
      \<lparr>pe_nickname = ''Alex'', pe_avatar = ''A'', vote_count = 1, rank = 2\<rparr>]"
    by (simp add: podium_of_def by_votes_def recipients_def tally_def podium_entry_def
        birthday_votes_def alex_def jordan_def sam_def)
  moreover from this have "majority_of [alex, jordan, sam] birthday_votes = Some ''Jordan''"
    by (simp add: majority_of_def)
  moreover have "podium_of [alex, jordan, sam, riley] tie_votes =
     [\<lparr>pe_nickname = ''Alex'', pe_avatar = ''A'', vote_count = 2, rank = 1\<rparr>,
      \<lparr>pe_nickname = ''Sam'', pe_avatar = ''S'', vote_count = 2, rank = 1\<rparr>]"
    by (simp add: podium_of_def by_votes_def recipients_def tally_def podium_entry_def
        tie_votes_def alex_def jordan_def sam_def riley_def)
  moreover have "podium_of [alex, jordan, sam, riley, casey] tie_and_third_votes =
     [\<lparr>pe_nickname = ''Alex'', pe_avatar = ''A'', vote_count = 2, rank = 1\<rparr>,
      \<lparr>pe_nickname = ''Sam'', pe_avatar = ''S'', vote_count = 2, rank = 1\<rparr>,
      \<lparr>pe_nickname = ''Jordan'', pe_avatar = ''J'', vote_count = 1, rank = 2\<rparr>]"
    by (simp add: podium_of_def by_votes_def recipients_def tally_def podium_entry_def
        tie_and_third_votes_def tie_votes_def alex_def jordan_def sam_def riley_def casey_def)
  ultimately show ?thesis by blast
qed

end
